theory Spec2Isabelle
  imports Main "HOL-Library.AList" "HOL-Library.Multiset"
begin

section \<open>JSON values, Python dictionaries and exceptions\<close>

text \<open>
  The batch driver \<^verbatim>\<open>run_flash_searcher_mm.py\<close> handles work items and result records
  that are Python dictionaries read from and written to JSON files. A JSON value is
  modelled by the datatype below (numbers are integers); a dictionary is an association
  list in insertion order, looked up with \<open>map_of\<close>.
\<close>

datatype json =
    JNull
  | JBool bool
  | JNum int
  | JStr string
  | JArr "json list"
  | JObj "(string \<times> json) list"

type_synonym dict = "(string \<times> json) list"

text \<open>
  An exception that comes out of an external collaborator (the agent, the attachment
  inspection tools) carries whether its class derives from \<^verbatim>\<open>Exception\<close>, the text
  \<^verbatim>\<open>str(e)\<close> and the text \<^verbatim>\<open>traceback.format_exc()\<close> gives for it. The other
  constructors of \<open>exn\<close> are the exceptions the interpreter and the standard library
  raise in the modelled code; all of them derive from \<^verbatim>\<open>Exception\<close>.
\<close>

datatype raised = Raised (is_Exception: bool) (str_e: string) (format_exc: string)

datatype exn =
    KeyError string
  | TypeError
  | AttributeError
  | FileNotFoundError
  | UnicodeDecodeError
  | JSONDecodeError
  | ValueError
  | Collaborator raised

text \<open>Truth value of a Python object, as \<^verbatim>\<open>if x:\<close> tests it.\<close>

fun truthy :: "json \<Rightarrow> bool" where
  "truthy JNull = False"
| "truthy (JBool b) = b"
| "truthy (JNum n) = (n \<noteq> 0)"
| "truthy (JStr s) = (s \<noteq> [])"
| "truthy (JArr xs) = (xs \<noteq> [])"
| "truthy (JObj d) = (d \<noteq> [])"

text \<open>\<^verbatim>\<open>d[k]\<close> raises KeyError on a missing key; \<^verbatim>\<open>d.get(k)\<close> gives None.\<close>

definition getitem :: "dict \<Rightarrow> string \<Rightarrow> exn + json" where
  "getitem d k = (case map_of d k of None \<Rightarrow> Inl (KeyError k) | Some v \<Rightarrow> Inr v)"

definition dict_get :: "dict \<Rightarrow> string \<Rightarrow> json" where
  "dict_get d k = (case map_of d k of None \<Rightarrow> JNull | Some v \<Rightarrow> v)"

text \<open>
  \<^verbatim>\<open>{**base, **extra}\<close>: the extra entries are stored one by one, a key that is already
  there keeps its place and takes the new value.
\<close>

definition dict_unpack :: "dict \<Rightarrow> dict \<Rightarrow> dict" where
  "dict_unpack base extra = fold (\<lambda>(k, v). AList.update k v) extra base"

text \<open>Substring test, \<^verbatim>\<open>sub in s\<close> on two strings.\<close>

fun is_substring :: "string \<Rightarrow> string \<Rightarrow> bool" where
  "is_substring sub [] = (sub = [])"
| "is_substring sub (c # cs) = (take (length sub) (c # cs) = sub \<or> is_substring sub cs)"

text \<open>
  \<^verbatim>\<open>s in v\<close> for a string \<open>s\<close>: a substring test on a string, membership in a list,
  key membership in a dictionary; a number or a boolean is not iterable.
\<close>

definition str_in :: "string \<Rightarrow> json \<Rightarrow> exn + bool" where
  "str_in s v =
     (case v of
        JStr t \<Rightarrow> Inr (is_substring s t)
      | JArr xs \<Rightarrow> Inr (JStr s \<in> set xs)
      | JObj d \<Rightarrow> Inr (s \<in> fst ` set d)
      | _ \<Rightarrow> Inl TypeError)"

text \<open>
  \<^verbatim>\<open>q += t\<close> for a string \<open>t\<close>: concatenation on a string; a list is extended by
  the characters of \<open>t\<close>; every other value raises TypeError.
\<close>

definition iadd_str :: "json \<Rightarrow> string \<Rightarrow> exn + json" where
  "iadd_str q t =
     (case q of
        JStr s \<Rightarrow> Inr (JStr (s @ t))
      | JArr xs \<Rightarrow> Inr (JArr (xs @ map (\<lambda>c. JStr [c]) t))
      | _ \<Rightarrow> Inl TypeError)"

text \<open>\<^verbatim>\<open>q[:100]\<close> is defined on strings and lists only.\<close>

fun sliceable :: "json \<Rightarrow> bool" where
  "sliceable (JStr s) = True"
| "sliceable (JArr xs) = True"
| "sliceable v = False"

section \<open>The worker task: \<^verbatim>\<open>process_item\<close>\<close>

text \<open>
  The external collaborators of one task, each either returning or raising:
  the constructor \<^verbatim>\<open>MMSearchAgent(model, ...)\<close> (\<open>None\<close> when it returns), the two
  attachment description calls on \<^verbatim>\<open>(file_name, question)\<close>, and the agent call
  \<^verbatim>\<open>search_agent(question)\<close>. The model, the tools and the run's settings are the same
  for every item and are part of these functions.
\<close>

record collaborators =
  MMSearchAgent :: "raised option"
  get_zip_description :: "json \<Rightarrow> json \<Rightarrow> raised + string"
  get_single_file_description :: "json \<Rightarrow> json \<Rightarrow> raised + string"
  search_agent :: "json \<Rightarrow> raised + json"

definition files_intro :: string where
  "files_intro =
     ''\<newline>\<newline>To solve the task above, you will have to use these attached files:\<newline>''"

definition file_intro :: string where
  "file_intro =
     ''\<newline>\<newline>To solve the task above, you will have to use this attached file:''"

text \<open>
  Lines 60 to 71: when \<^verbatim>\<open>item.get("file_name")\<close> is truthy the question is extended by
  an introduction and the description of the attachment. Nothing here is inside the
  \<^verbatim>\<open>try\<close> block. The description call is given \<^verbatim>\<open>item["question"]\<close>: for a string
  that is the question of the item, since \<^verbatim>\<open>+=\<close> made a new string; a list is extended
  in place by \<^verbatim>\<open>+=\<close>, so for a list it is the list already extended by the
  introduction.
\<close>

definition describe_attachment :: "collaborators \<Rightarrow> dict \<Rightarrow> json \<Rightarrow> exn + json" where
  "describe_attachment env item question =
     (if truthy (dict_get item ''file_name'') then
        (case getitem item ''file_name'' of
           Inl e \<Rightarrow> Inl e
         | Inr file_name \<Rightarrow>
             (case str_in ''.zip'' file_name of
                Inl e \<Rightarrow> Inl e
              | Inr is_zip \<Rightarrow>
                  (case iadd_str question (if is_zip then files_intro else file_intro) of
                     Inl e \<Rightarrow> Inl e
                   | Inr q1 \<Rightarrow>
                       (case (if is_zip
                              then get_zip_description env file_name
                                     (case question of JArr xs \<Rightarrow> q1 | _ \<Rightarrow> question)
                              else get_single_file_description env file_name
                                     (case question of JArr xs \<Rightarrow> q1 | _ \<Rightarrow> question)) of
                          Inl e \<Rightarrow> Inl (Collaborator e)
                        | Inr description \<Rightarrow> iadd_str q1 description))))
      else Inr question)"

definition failed_record :: "json \<Rightarrow> json \<Rightarrow> raised \<Rightarrow> dict" where
  "failed_record question golden_answer e =
     [(''question'', question),
      (''golden_answer'', golden_answer),
      (''error'', JStr (str_e e)),
      (''error_trace'', JStr (format_exc e)),
      (''status'', JStr ''failed'')]"

definition success_record :: "json \<Rightarrow> json \<Rightarrow> dict \<Rightarrow> dict" where
  "success_record question golden_answer result =
     dict_unpack
       [(''question'', question),
        (''golden_answer'', golden_answer),
        (''status'', JStr ''success'')]
       result"

text \<open>
  \<^verbatim>\<open>process_item\<close>, lines 48 to 96. Only the agent call stands in the \<^verbatim>\<open>try\<close> block,
  and \<^verbatim>\<open>except Exception\<close> leaves an exception that does not derive from
  \<^verbatim>\<open>Exception\<close> alone. The handler logs \<^verbatim>\<open>question[:100]\<close> before it builds the
  record, so a question that cannot be sliced raises there (TypeError; for a dictionary
  the class depends on the version of Python, and TypeError stands for it).
  \<^verbatim>\<open>**result\<close> needs a mapping.
\<close>

definition process_item :: "collaborators \<Rightarrow> dict \<Rightarrow> exn + dict" where
  "process_item env item =
     (case MMSearchAgent env of
        Some e \<Rightarrow> Inl (Collaborator e)
      | None \<Rightarrow>
     (case getitem item ''question'' of
        Inl e \<Rightarrow> Inl e
      | Inr question0 \<Rightarrow>
     (case getitem item ''answer'' of
        Inl e \<Rightarrow> Inl e
      | Inr golden_answer \<Rightarrow>
     (case describe_attachment env item question0 of
        Inl e \<Rightarrow> Inl e
      | Inr question \<Rightarrow>
     (case search_agent env question of
        Inl e \<Rightarrow>
          if is_Exception e then
            (if sliceable question then Inr (failed_record question golden_answer e)
             else Inl TypeError)
          else Inl (Collaborator e)
      | Inr result \<Rightarrow>
          (case result of
             JObj output \<Rightarrow> Inr (success_record question golden_answer output)
           | _ \<Rightarrow> Inl TypeError))))))"

section \<open>Files and the JSON library\<close>

text \<open>
  The file system maps a path to the bytes of the file at it; a text is the bytes of its
  UTF-8 encoding. The JSON library of Python is a parameter of the model: \<open>json_load\<close>
  parses a text (\<open>None\<close> stands for JSONDecodeError), \<open>json_dump\<close> is the text
  \<^verbatim>\<open>json.dump(obj, f, ensure_ascii=False, indent=4)\<close> writes, and \<open>json_dumps\<close> is the
  one-line text of a record in a line-delimited file.
\<close>

type_synonym files = "string \<rightharpoonup> string"

text \<open>
  Reading a file as text decodes its bytes as UTF-8 and raises UnicodeDecodeError when
  they are not well formed. The decoder goes through the bytes with a state: how many
  continuation bytes the current character still needs, and the range the next one must
  lie in (which rules out overlong forms, surrogates and code points beyond U+10FFFF);
  \<open>None\<close> is the state after an ill-formed byte.
\<close>

definition utf8_lead :: "nat \<Rightarrow> (nat \<times> nat \<times> nat) option" where
  "utf8_lead a =
     (if a < 0x80 then Some (0, 0x80, 0xBF)
      else if 0xC2 \<le> a \<and> a \<le> 0xDF then Some (1, 0x80, 0xBF)
      else if a = 0xE0 then Some (2, 0xA0, 0xBF)
      else if a = 0xED then Some (2, 0x80, 0x9F)
      else if 0xE1 \<le> a \<and> a \<le> 0xEF then Some (2, 0x80, 0xBF)
      else if a = 0xF0 then Some (3, 0x90, 0xBF)
      else if a = 0xF4 then Some (3, 0x80, 0x8F)
      else if 0xF1 \<le> a \<and> a \<le> 0xF3 then Some (3, 0x80, 0xBF)
      else None)"

fun utf8_step :: "(nat \<times> nat \<times> nat) option \<Rightarrow> nat \<Rightarrow> (nat \<times> nat \<times> nat) option" where
  "utf8_step None a = None"
| "utf8_step (Some (n, lo, hi)) a =
     (if n = 0 then utf8_lead a
      else if lo \<le> a \<and> a \<le> hi then Some (n - 1, 0x80, 0xBF)
      else None)"

definition valid_utf8 :: "string \<Rightarrow> bool" where
  "valid_utf8 s =
     (case fold (\<lambda>c st. utf8_step st (of_char c)) s (Some (0, 0x80, 0xBF)) of
        None \<Rightarrow> False
      | Some (n, lo, hi) \<Rightarrow> n = 0)"

record json_lib =
  json_load :: "string \<Rightarrow> json option"
  json_dump :: "json \<Rightarrow> string"
  json_dumps :: "json \<Rightarrow> string"

definition open_read :: "files \<Rightarrow> string \<Rightarrow> exn + string" where
  "open_read fs path =
     (case fs path of
        None \<Rightarrow> Inl FileNotFoundError
      | Some s \<Rightarrow> if valid_utf8 s then Inr s else Inl UnicodeDecodeError)"

text \<open>\<^verbatim>\<open>with open(path, 'r') as f: json.load(f)\<close>\<close>

definition load_json_file :: "json_lib \<Rightarrow> files \<Rightarrow> string \<Rightarrow> exn + json" where
  "load_json_file lib fs path =
     (case open_read fs path of
        Inl e \<Rightarrow> Inl e
      | Inr s \<Rightarrow> (case json_load lib s of None \<Rightarrow> Inl JSONDecodeError | Some v \<Rightarrow> Inr v))"

text \<open>The lines of a text, without their terminators.\<close>

fun lines_from :: "string \<Rightarrow> string \<Rightarrow> string list" where
  "lines_from cur [] = (if cur = [] then [] else [cur])"
| "lines_from cur (c # cs) =
     (if c = CHR 0x0A then cur # lines_from [] cs else lines_from (cur @ [c]) cs)"

fun parse_lines :: "json_lib \<Rightarrow> string list \<Rightarrow> exn + json list" where
  "parse_lines lib [] = Inr []"
| "parse_lines lib (l # ls) =
     (case json_load lib l of
        None \<Rightarrow> Inl JSONDecodeError
      | Some v \<Rightarrow> (case parse_lines lib ls of Inl e \<Rightarrow> Inl e | Inr vs \<Rightarrow> Inr (v # vs)))"

text \<open>
  Modelled from the spec: \<^verbatim>\<open>read_jsonl\<close> of \<^verbatim>\<open>utils.py\<close>, which is not among the
  sources. The spec: parse each non-empty line independently as one record; a malformed
  line is a hard failure for that load, not skipped.
\<close>

definition read_jsonl :: "json_lib \<Rightarrow> files \<Rightarrow> string \<Rightarrow> exn + json list" where
  "read_jsonl lib fs path =
     (case open_read fs path of
        Inl e \<Rightarrow> Inl e
      | Inr s \<Rightarrow> parse_lines lib (filter (\<lambda>l. l \<noteq> []) (lines_from [] s)))"

text \<open>
  Modelled from the spec: \<^verbatim>\<open>write_jsonl(path, records, "a")\<close> of \<^verbatim>\<open>utils.py\<close>, which
  is not among the sources. The spec: open the store for append, write one serialized
  record plus line terminator; no read of existing content is needed. Opening for append
  creates a missing file; \<open>content\<close> is the text of a file, empty when it is missing.
\<close>

definition content :: "files \<Rightarrow> string \<Rightarrow> string" where
  "content fs path = (case fs path of None \<Rightarrow> [] | Some s \<Rightarrow> s)"

definition write_jsonl :: "json_lib \<Rightarrow> files \<Rightarrow> string \<Rightarrow> dict list \<Rightarrow> files" where
  "write_jsonl lib fs path records =
     fs(path \<mapsto>
        content fs path @ concat (map (\<lambda>r. json_dumps lib (JObj r) @ [CHR 0x0A]) records))"

text \<open>\<^verbatim>\<open>shutil.move(src, dst)\<close> between two files of one directory: a rename.\<close>

definition shutil_move :: "files \<Rightarrow> string \<Rightarrow> string \<Rightarrow> files" where
  "shutil_move fs src dst = (fs(dst := fs src))(src := None)"

section \<open>The engine: \<^verbatim>\<open>main\<close> from the loaded work list on\<close>

text \<open>\<^verbatim>\<open>str.lower()\<close>, on the letters of ASCII.\<close>

definition lower_char :: "char \<Rightarrow> char" where
  "lower_char c =
     (case map_of (zip ''ABCDEFGHIJKLMNOPQRSTUVWXYZ'' ''abcdefghijklmnopqrstuvwxyz'') c of
        None \<Rightarrow> c
      | Some l \<Rightarrow> l)"

definition endswith :: "string \<Rightarrow> string \<Rightarrow> bool" where
  "endswith s suf = (length suf \<le> length s \<and> drop (length s - length suf) s = suf)"

text \<open>Line 137: \<^verbatim>\<open>args.outfile.lower().endswith('.json')\<close>\<close>

definition is_json_output :: "string \<Rightarrow> bool" where
  "is_json_output outfile = endswith (map lower_char outfile) ''.json''"

text \<open>
  Lines 139 to 148: the prior output, read as one JSON document or line by line
  (\<open>try_load\<close> is the body of the \<^verbatim>\<open>try\<close>); every exception of the load gives the
  empty list. The encoding of this read is the one of the locale, taken to be UTF-8.
\<close>

definition try_load :: "json_lib \<Rightarrow> files \<Rightarrow> string \<Rightarrow> exn + json" where
  "try_load lib fs outfile =
     (if is_json_output outfile then load_json_file lib fs outfile
      else (case read_jsonl lib fs outfile of Inl e \<Rightarrow> Inl e | Inr vs \<Rightarrow> Inr (JArr vs)))"

definition load_out_data :: "json_lib \<Rightarrow> files \<Rightarrow> string \<Rightarrow> json" where
  "load_out_data lib fs outfile =
     (case try_load lib fs outfile of Inl e \<Rightarrow> JArr [] | Inr v \<Rightarrow> v)"

text \<open>
  Iterating over a value: the elements of a list, the keys of a dictionary, the
  characters of a string; nothing else is iterable.
\<close>

definition py_iter :: "json \<Rightarrow> exn + json list" where
  "py_iter v =
     (case v of
        JArr xs \<Rightarrow> Inr xs
      | JObj d \<Rightarrow> Inr (map (\<lambda>kv. JStr (fst kv)) d)
      | JStr s \<Rightarrow> Inr (map (\<lambda>c. JStr [c]) s)
      | _ \<Rightarrow> Inl TypeError)"

text \<open>\<^verbatim>\<open>[item.get("question") for item in out_data]\<close>: only a dictionary has \<^verbatim>\<open>get\<close>.\<close>

fun questions_of :: "json list \<Rightarrow> exn + json list" where
  "questions_of [] = Inr []"
| "questions_of (JObj d # rest) =
     (case questions_of rest of Inl e \<Rightarrow> Inl e | Inr qs \<Rightarrow> Inr (dict_get d ''question'' # qs))"
| "questions_of (v # rest) = Inl AttributeError"

text \<open>
  Members of a Python set are hashable (lists and dictionaries are not) and are compared
  with \<^verbatim>\<open>==\<close>, under which \<^verbatim>\<open>True\<close> is 1 and \<^verbatim>\<open>False\<close> is 0.
\<close>

fun hashable :: "json \<Rightarrow> bool" where
  "hashable (JArr xs) = False"
| "hashable (JObj d) = False"
| "hashable v = True"

fun py_key :: "json \<Rightarrow> json" where
  "py_key (JBool b) = JNum (if b then 1 else 0)"
| "py_key v = v"

definition py_set :: "json list \<Rightarrow> exn + json set" where
  "py_set vs = (if list_all hashable vs then Inr (py_key ` set vs) else Inl TypeError)"

text \<open>Line 150.\<close>

definition done_questions :: "json \<Rightarrow> exn + json set" where
  "done_questions out_data =
     (case py_iter out_data of
        Inl e \<Rightarrow> Inl e
      | Inr records \<Rightarrow> (case questions_of records of Inl e \<Rightarrow> Inl e | Inr qs \<Rightarrow> py_set qs))"

text \<open>Line 151; the membership test hashes the question of every item.\<close>

fun data_to_run :: "dict list \<Rightarrow> json set \<Rightarrow> exn + dict list" where
  "data_to_run [] seen = Inr []"
| "data_to_run (item # rest) seen =
     (if hashable (dict_get item ''question'') then
        (case data_to_run rest seen of
           Inl e \<Rightarrow> Inl e
         | Inr todo \<Rightarrow>
             Inr (if py_key (dict_get item ''question'') \<notin> seen then item # todo else todo))
      else Inl TypeError)"

text \<open>Lines 139 to 151 together: the items that are left to run.\<close>

definition remaining :: "json_lib \<Rightarrow> files \<Rightarrow> string \<Rightarrow> dict list \<Rightarrow> exn + dict list" where
  "remaining lib fs outfile data =
     (case done_questions (load_out_data lib fs outfile) of
        Inl e \<Rightarrow> Inl e
      | Inr seen \<Rightarrow> data_to_run data seen)"

text \<open>
  \<^verbatim>\<open>safe_write\<close>, lines 157 to 179, the body under the lock. For a \<^verbatim>\<open>.json\<close> output the
  handler of the read (lines 161 to 165, \<open>existing_data\<close>) covers FileNotFoundError and
  JSONDecodeError only: every other exception of the read, UnicodeDecodeError among
  them, leaves \<^verbatim>\<open>safe_write\<close>. \<^verbatim>\<open>append\<close> exists on a list only.
\<close>

definition existing_data :: "json_lib \<Rightarrow> files \<Rightarrow> string \<Rightarrow> exn + json" where
  "existing_data lib fs outfile =
     (case load_json_file lib fs outfile of
        Inl e \<Rightarrow> if e = FileNotFoundError \<or> e = JSONDecodeError then Inr (JArr []) else Inl e
      | Inr v \<Rightarrow> Inr v)"

definition safe_write :: "json_lib \<Rightarrow> string \<Rightarrow> files \<Rightarrow> dict \<Rightarrow> exn + files" where
  "safe_write lib outfile fs result =
     (if is_json_output outfile then
        (case existing_data lib fs outfile of
           Inl e \<Rightarrow> Inl e
         | Inr (JArr records) \<Rightarrow>
             Inr (shutil_move
                    (fs(outfile @ ''.tmp'' \<mapsto> json_dump lib (JArr (records @ [JObj result]))))
                    (outfile @ ''.tmp'') outfile)
         | Inr v \<Rightarrow> Inl AttributeError)
      else Inr (write_jsonl lib fs outfile [result]))"

text \<open>
  Lines 198 to 202, over the outcomes of the tasks in the order they complete:
  \<^verbatim>\<open>future.result()\<close> raises again what the task raised, which ends the loop; a
  non-empty result is kept and written. The state is the file system and the list
  \<^verbatim>\<open>results\<close>; the first component of the value is the exception that ended the loop.
\<close>

fun collect ::
  "json_lib \<Rightarrow> string \<Rightarrow> (exn + dict) list \<Rightarrow> files \<times> dict list \<Rightarrow> exn option \<times> files \<times> dict list" where
  "collect lib outfile [] (fs, results) = (None, fs, results)"
| "collect lib outfile (Inl e # rest) (fs, results) = (Some e, fs, results)"
| "collect lib outfile (Inr result # rest) (fs, results) =
     (if result \<noteq> [] then
        (case safe_write lib outfile fs result of
           Inl e \<Rightarrow> (Some e, fs, results @ [result])
         | Inr fs' \<Rightarrow> collect lib outfile rest (fs', results @ [result]))
      else collect lib outfile rest (fs, results))"

text \<open>
  \<^verbatim>\<open>main\<close> from line 136 on, for the work list \<open>data\<close> that lines 127 to 134 loaded.
  \<^verbatim>\<open>ThreadPoolExecutor(max_workers=args.concurrency)\<close> on line 181 raises ValueError
  for a concurrency that is not positive. One task is submitted for each item of
  \<^verbatim>\<open>data_to_run\<close>; \<open>completion\<close> lists the positions of the tasks in the order
  \<^verbatim>\<open>as_completed\<close> yields them, a permutation of the positions that the scheduling of
  the pool decides.
\<close>

definition main ::
  "json_lib \<Rightarrow> collaborators \<Rightarrow> string \<Rightarrow> int \<Rightarrow> nat list \<Rightarrow> files \<Rightarrow> dict list \<Rightarrow>
     exn option \<times> files \<times> dict list" where
  "main lib env outfile concurrency completion fs data =
     (case remaining lib fs outfile data of
        Inl e \<Rightarrow> (Some e, fs, [])
      | Inr todo \<Rightarrow>
          if concurrency \<le> 0 then (Some ValueError, fs, [])
          else
            collect lib outfile
              (map (\<lambda>i. map (process_item env) todo ! i) completion) (fs, []))"

text \<open>
  An empty output store: for a \<^verbatim>\<open>.json\<close> output, a file that \<^verbatim>\<open>safe_write\<close> reads as
  the empty list (it is missing, or is not valid JSON, or holds the empty list); for a
  line-delimited output, a file that is missing or has no character but line
  terminators.
\<close>

definition empty_store :: "json_lib \<Rightarrow> files \<Rightarrow> string \<Rightarrow> bool" where
  "empty_store lib fs outfile =
     (if is_json_output outfile then existing_data lib fs outfile = Inr (JArr [])
      else list_all (\<lambda>c. c = CHR 0x0A) (content fs outfile))"

text \<open>
  What the statements about a whole run ask of the JSON library, for the records
  \<open>recs\<close> a run writes in this order to an empty store: in a \<^verbatim>\<open>.json\<close> output every
  document the run writes, the list of the first \<open>n\<close> records, is a text that is read
  back as it was written; in a line-delimited output the line of every record is a text
  that is not empty, has no line terminator inside and is read back as the record.
\<close>

definition reads_back :: "json_lib \<Rightarrow> string \<Rightarrow> dict list \<Rightarrow> bool" where
  "reads_back lib outfile recs =
     (if is_json_output outfile then
        list_all
          (\<lambda>n. valid_utf8 (json_dump lib (JArr (map JObj (take n recs)))) \<and>
                json_load lib (json_dump lib (JArr (map JObj (take n recs)))) =
                  Some (JArr (map JObj (take n recs))))
          [1..<Suc (length recs)]
      else
        list_all
          (\<lambda>r. json_dumps lib (JObj r) \<noteq> [] \<and>
                CHR 0x0A \<notin> set (json_dumps lib (JObj r)) \<and>
                valid_utf8 (json_dumps lib (JObj r)) \<and>
                json_load lib (json_dumps lib (JObj r)) = Some (JObj r))
          recs)"

section \<open>Concrete inputs\<close>

text \<open>
  The inputs of the examples below: the two items of the scenario of the spec, the
  records a run makes of them, collaborators that return or raise a fixed value, and an
  excerpt of the JSON library given by tables of texts and the values they stand for.
\<close>

definition item_Q1 :: dict where
  "item_Q1 = [(''question'', JStr ''Q1''), (''answer'', JStr ''A1'')]"

definition item_Q2 :: dict where
  "item_Q2 = [(''question'', JStr ''Q2''), (''answer'', JStr ''A2'')]"

definition item_png :: dict where
  "item_png =
     [(''question'', JStr ''Q3''), (''answer'', JStr ''A3''), (''file_name'', JStr ''./mm/a.png'')]"

definition rec_Q1 :: dict where
  "rec_Q1 =
     [(''question'', JStr ''Q1''), (''golden_answer'', JStr ''A1''),
      (''status'', JStr ''success''), (''result'', JStr ''ok'')]"

definition rec_Q2 :: dict where
  "rec_Q2 =
     [(''question'', JStr ''Q2''), (''golden_answer'', JStr ''A2''),
      (''status'', JStr ''success''), (''result'', JStr ''ok'')]"

definition failed_Q1 :: dict where
  "failed_Q1 =
     [(''question'', JStr ''Q1''), (''golden_answer'', JStr ''A1''), (''error'', JStr ''boom''),
      (''error_trace'', JStr ''Traceback''), (''status'', JStr ''failed'')]"

definition returning :: "json \<Rightarrow> collaborators" where
  "returning out =
     \<lparr>MMSearchAgent = None,
      get_zip_description = (\<lambda>file_name question. Inr ''an archive''),
      get_single_file_description = (\<lambda>file_name question. Inr '' a picture''),
      search_agent = (\<lambda>question. Inr out)\<rparr>"

definition agent_raising :: "raised \<Rightarrow> collaborators" where
  "agent_raising e =
     \<lparr>MMSearchAgent = None,
      get_zip_description = (\<lambda>file_name question. Inr ''an archive''),
      get_single_file_description = (\<lambda>file_name question. Inr '' a picture''),
      search_agent = (\<lambda>question. Inl e)\<rparr>"

definition description_raising :: "raised \<Rightarrow> collaborators" where
  "description_raising e =
     \<lparr>MMSearchAgent = None,
      get_zip_description = (\<lambda>file_name question. Inl e),
      get_single_file_description = (\<lambda>file_name question. Inl e),
      search_agent = (\<lambda>question. Inr (JObj [(''result'', JStr ''ok'')]))\<rparr>"

definition excerpt_lib :: "(string \<times> json) list \<Rightarrow> (string \<times> json) list \<Rightarrow> json_lib" where
  "excerpt_lib docs recs =
     \<lparr>json_load = map_of (docs @ recs),
      json_dump = (\<lambda>v. case find (\<lambda>tv. snd tv = v) docs of None \<Rightarrow> [] | Some tv \<Rightarrow> fst tv),
      json_dumps = (\<lambda>v. case find (\<lambda>tv. snd tv = v) recs of None \<Rightarrow> [] | Some tv \<Rightarrow> fst tv)\<rparr>"

definition doc_Q1 :: string where
  \<open>doc_Q1 =
     ''[\<newline>    {\<newline>        "question": "Q1",\<newline>        "golden_answer": "A1",\<newline>        "status": "success",\<newline>        "result": "ok"\<newline>    }\<newline>]''\<close>

definition doc_Q1_Q2 :: string where
  \<open>doc_Q1_Q2 =
     ''[\<newline>    {\<newline>        "question": "Q1",\<newline>        "golden_answer": "A1",\<newline>        "status": "success",\<newline>        "result": "ok"\<newline>    },\<newline>    {\<newline>        "question": "Q2",\<newline>        "golden_answer": "A2",\<newline>        "status": "success",\<newline>        "result": "ok"\<newline>    }\<newline>]''\<close>

definition doc_Q1_Q1 :: string where
  \<open>doc_Q1_Q1 =
     ''[\<newline>    {\<newline>        "question": "Q1",\<newline>        "golden_answer": "A1",\<newline>        "status": "success",\<newline>        "result": "ok"\<newline>    },\<newline>    {\<newline>        "question": "Q1",\<newline>        "golden_answer": "A1",\<newline>        "status": "success",\<newline>        "result": "ok"\<newline>    }\<newline>]''\<close>

definition doc_failed_Q1 :: string where
  \<open>doc_failed_Q1 =
     ''[\<newline>    {\<newline>        "question": "Q1",\<newline>        "golden_answer": "A1",\<newline>        "error": "boom",\<newline>        "error_trace": "Traceback",\<newline>        "status": "failed"\<newline>    }\<newline>]''\<close>

definition line_Q1 :: string where
  \<open>line_Q1 =
     ''{"question": "Q1", "golden_answer": "A1", "status": "success", "result": "ok"}''\<close>

definition line_Q2 :: string where
  \<open>line_Q2 =
     ''{"question": "Q2", "golden_answer": "A2", "status": "success", "result": "ok"}''\<close>

definition json_excerpt :: json_lib where
  "json_excerpt =
     excerpt_lib
       [(doc_Q1, JArr [JObj rec_Q1]),
        (doc_Q1_Q2, JArr [JObj rec_Q1, JObj rec_Q2]),
        (doc_Q1_Q1, JArr [JObj rec_Q1, JObj rec_Q1]),
        (doc_failed_Q1, JArr [JObj failed_Q1])]
       [(line_Q1, JObj rec_Q1), (line_Q2, JObj rec_Q2)]"

section \<open>Auxiliary facts\<close>

lemma tmp_path_differs: "outfile @ ''.tmp'' \<noteq> outfile"
  by simp

lemma utf8_ascii_run:
  "list_all (\<lambda>c. (of_char c :: nat) < 128) s \<Longrightarrow>
   fold (\<lambda>c st. utf8_step st (of_char c)) s (Some (0, lo, hi)) =
     (if s = [] then Some (0, lo, hi) else Some (0, 0x80, 0xBF))"
proof (induction s arbitrary: lo hi)
  case Nil
  then show ?case by simp
next
  case (Cons c s)
  then have "fold (\<lambda>c st. utf8_step st (of_char c)) s (Some (0, 0x80, 0xBF)) =
      (if s = [] then Some (0, 0x80, 0xBF) else Some (0, 0x80, 0xBF))"
    by (intro Cons.IH) simp
  with Cons.prems show ?case
    by (simp add: utf8_lead_def)
qed

lemma valid_utf8_ascii: "list_all (\<lambda>c. (of_char c :: nat) < 128) s \<Longrightarrow> valid_utf8 s"
  by (simp add: valid_utf8_def utf8_ascii_run)

lemma newlines_ascii:
  "list_all (\<lambda>c. c = CHR 0x0A) s \<Longrightarrow> list_all (\<lambda>c. (of_char c :: nat) < 128) s"
  by (induction s) simp_all

lemma valid_utf8_newlines: "list_all (\<lambda>c. c = CHR 0x0A) s \<Longrightarrow> valid_utf8 s"
  by (rule valid_utf8_ascii) (rule newlines_ascii)

lemma utf8_run_from_start:
  "fold (\<lambda>c st. utf8_step st (of_char c)) s (Some (0, lo, hi)) =
     (if s = [] then Some (0, lo, hi)
      else fold (\<lambda>c st. utf8_step st (of_char c)) s (Some (0, 0x80, 0xBF)))"
  by (cases s) simp_all

lemma valid_utf8_append: "valid_utf8 a \<Longrightarrow> valid_utf8 (a @ b) = valid_utf8 b"
proof -
  assume "valid_utf8 a"
  then obtain lo hi where
    "fold (\<lambda>c st. utf8_step st (of_char c)) a (Some (0, 0x80, 0xBF)) = Some (0, lo, hi)"
    by (auto simp: valid_utf8_def split: option.splits)
  then show ?thesis
    using utf8_run_from_start [of b lo hi] by (simp add: valid_utf8_def)
qed

lemma excerpt_texts:
  "valid_utf8 doc_Q1" "valid_utf8 doc_Q1_Q2" "valid_utf8 doc_Q1_Q1" "valid_utf8 doc_failed_Q1"
  "valid_utf8 line_Q1" "valid_utf8 line_Q2"
  by (simp_all add: valid_utf8_ascii doc_Q1_def doc_Q1_Q2_def doc_Q1_Q1_def doc_failed_Q1_def
      line_Q1_def line_Q2_def)

lemma data_to_run_filter:
  "list_all (\<lambda>item. hashable (dict_get item ''question'')) data \<Longrightarrow>
   data_to_run data seen = Inr (filter (\<lambda>item. py_key (dict_get item ''question'') \<notin> seen) data)"
  by (induction data) auto

lemma questions_of_records:
  "questions_of (map JObj recs) = Inr (map (\<lambda>r. dict_get r ''question'') recs)"
  by (induction recs) auto

lemma questions_of_other:
  "\<exists>v\<in>set vs. \<forall>d. v \<noteq> JObj d \<Longrightarrow> questions_of vs = Inl AttributeError"
  by (induction vs rule: questions_of.induct) (auto split: sum.splits)

lemma done_questions_records:
  "list_all (\<lambda>r. hashable (dict_get r ''question'')) recs \<Longrightarrow>
   done_questions (JArr (map JObj recs)) = Inr ((\<lambda>r. py_key (dict_get r ''question'')) ` set recs)"
  by (simp add: done_questions_def py_iter_def questions_of_records py_set_def list_all_iff image_image)

lemma done_questions_unhashable:
  "\<not> list_all (\<lambda>r. hashable (dict_get r ''question'')) recs \<Longrightarrow>
   done_questions (JArr (map JObj recs)) = Inl TypeError"
  by (simp add: done_questions_def py_iter_def questions_of_records py_set_def list_all_iff)

lemma done_questions_empty: "done_questions (JArr []) = Inr {}"
  by (simp add: done_questions_def py_iter_def py_set_def)

lemma done_questions_object: "d \<noteq> [] \<Longrightarrow> done_questions (JObj d) = Inl AttributeError"
  by (cases d) (simp_all add: done_questions_def py_iter_def)

lemma done_questions_string: "s \<noteq> [] \<Longrightarrow> done_questions (JStr s) = Inl AttributeError"
  by (cases s) (simp_all add: done_questions_def py_iter_def)

lemma done_questions_other_list:
  "\<exists>v\<in>set vs. \<forall>d. v \<noteq> JObj d \<Longrightarrow> done_questions (JArr vs) = Inl AttributeError"
  by (simp add: done_questions_def py_iter_def questions_of_other)

lemmas path_simps = is_json_output_def endswith_def lower_char_def

lemmas load_simps = load_out_data_def try_load_def load_json_file_def open_read_def read_jsonl_def

lemmas excerpt_simps = json_excerpt_def excerpt_lib_def doc_Q1_def doc_Q1_Q2_def doc_Q1_Q1_def
  doc_failed_Q1_def line_Q1_def line_Q2_def

section \<open>The claims\<close>

text \<open>
  Claim C10. \<^verbatim>\<open>process_item\<close> reads \<^verbatim>\<open>item["question"]\<close> and \<^verbatim>\<open>item["answer"]\<close> before
  its \<^verbatim>\<open>try\<close> block. Once the agent is constructed, an item that lacks one of the two
  keys makes the task raise KeyError for the first missing key: no failed record is made
  of it, and when the collection loop reaches the task, \<^verbatim>\<open>future.result()\<close> raises the
  KeyError again, which ends the loop with the files and the results as they were.
\<close>

theorem missing_key_escapes:
  assumes "MMSearchAgent env = None"
    and "map_of item ''question'' = None \<or> map_of item ''answer'' = None"
  shows "process_item env item =
           Inl (KeyError (if map_of item ''question'' = None then ''question'' else ''answer'')) \<and>
         collect lib outfile (process_item env item # rest) (fs, results) =
           (Some (KeyError (if map_of item ''question'' = None then ''question'' else ''answer'')),
            fs, results)"
  using assms by (auto simp: process_item_def getitem_def split: option.splits)

theorem missing_key_escapes_witness:
  "process_item (returning (JObj [])) [(''question'', JStr ''Q1'')] = Inl (KeyError ''answer'') \<and>
   collect json_excerpt ''out.jsonl''
     [process_item (returning (JObj [])) [(''question'', JStr ''Q1'')], Inr rec_Q2]
     (Map.empty, []) = (Some (KeyError ''answer''), Map.empty, [])"
  using missing_key_escapes [of "returning (JObj [])" "[(''question'', JStr ''Q1'')]"
      json_excerpt "''out.jsonl''" "[Inr rec_Q2]" Map.empty "[]"]
  by (simp add: returning_def)

text \<open>
  Claim C6. For a prior output that loads as a list of records and questions that can be
  hashed, the items left to run are exactly the items of the work list, in their order,
  whose question (\<^verbatim>\<open>item.get("question")\<close>, compared as Python compares set members) is
  the question of no prior record; these are the items \<^verbatim>\<open>main\<close> submits to the pool
  (which line 181 makes only for a positive concurrency). The status of a prior record is
  not read: a question whose prior record is failed is skipped like one whose record is a
  success.
\<close>

theorem pending_iff_question_absent:
  assumes "load_out_data lib fs outfile = JArr (map JObj recs)"
    and "list_all (\<lambda>r. hashable (dict_get r ''question'')) recs"
    and "list_all (\<lambda>item. hashable (dict_get item ''question'')) data"
  shows "remaining lib fs outfile data =
           Inr (filter (\<lambda>item. py_key (dict_get item ''question'')
                           \<notin> (\<lambda>r. py_key (dict_get r ''question'')) ` set recs) data) \<and>
         (\<forall>todo item. remaining lib fs outfile data = Inr todo \<longrightarrow>
            (item \<in> set todo \<longleftrightarrow>
               item \<in> set data \<and>
               \<not> list_ex (\<lambda>r. py_key (dict_get r ''question'') = py_key (dict_get item ''question''))
                    recs)) \<and>
         main lib env outfile concurrency completion fs data =
           (if concurrency \<le> 0 then (Some ValueError, fs, [])
            else
              collect lib outfile
                (map (\<lambda>i. map (process_item env)
                             (filter (\<lambda>item. py_key (dict_get item ''question'')
                                         \<notin> (\<lambda>r. py_key (dict_get r ''question'')) ` set recs) data) ! i)
                   completion)
                (fs, []))"
  using assms
  by (simp add: remaining_def main_def done_questions_records data_to_run_filter list_ex_iff
      image_iff) metis

theorem pending_iff_question_absent_witness:
  "load_out_data json_excerpt [''out.json'' \<mapsto> doc_failed_Q1] ''out.json'' = JArr [JObj failed_Q1] \<and>
   dict_get failed_Q1 ''status'' = JStr ''failed'' \<and>
   remaining json_excerpt [''out.json'' \<mapsto> doc_failed_Q1] ''out.json'' [item_Q1, item_Q2] =
     Inr [item_Q2]"
proof -
  have load: "load_out_data json_excerpt [''out.json'' \<mapsto> doc_failed_Q1] ''out.json'' =
      JArr (map JObj [failed_Q1])"
    by (simp add: load_simps path_simps excerpt_texts) (simp add: excerpt_simps)
  have recs: "list_all (\<lambda>r. hashable (dict_get r ''question'')) [failed_Q1]"
    by (simp add: failed_Q1_def dict_get_def)
  have data: "list_all (\<lambda>item. hashable (dict_get item ''question'')) [item_Q1, item_Q2]"
    by (simp add: item_Q1_def item_Q2_def dict_get_def)
  show ?thesis
    using pending_iff_question_absent [OF load recs data] load
    by (simp add: failed_Q1_def item_Q1_def item_Q2_def dict_get_def)
qed

text \<open>
  A prior output that is one object, not a list: the load succeeds, line 150 raises
  AttributeError outside the \<^verbatim>\<open>try\<close>, and the run ends before any task is submitted.
\<close>

theorem parsed_object_aborts_run:
  "try_load json_excerpt [''out.json'' \<mapsto> line_Q1] ''out.json'' = Inr (JObj rec_Q1) \<and>
   main json_excerpt (returning (JObj [(''result'', JStr ''ok'')])) ''out.json'' 2 [0, 1]
     [''out.json'' \<mapsto> line_Q1] [item_Q1, item_Q2] =
     (Some AttributeError, [''out.json'' \<mapsto> line_Q1], [])"
proof -
  have load: "try_load json_excerpt [''out.json'' \<mapsto> line_Q1] ''out.json'' = Inr (JObj rec_Q1)"
    by (simp add: try_load_def load_json_file_def open_read_def path_simps excerpt_texts)
      (simp add: excerpt_simps)
  have "rec_Q1 \<noteq> []"
    by (simp add: rec_Q1_def)
  then have "done_questions (JObj rec_Q1) = Inl AttributeError"
    by (rule done_questions_object)
  with load show ?thesis
    by (simp add: main_def remaining_def load_out_data_def)
qed

text \<open>
  Claim C7, as the code has it. The load itself never ends the run: when it raises (a
  missing file, bytes that do not decode, a text the parser rejects) or finds nothing (an
  empty line-delimited file), the prior output is the empty list, the run goes on, and
  every item of the work list, its question being hashable, is left to run and is
  submitted. A content that parses to something else than a list of records with
  hashable questions is not taken for empty: line 150, outside the \<^verbatim>\<open>try\<close>, raises on it
  (AttributeError for an object, a string or a list with an element that is not an
  object; TypeError for a number, a boolean, null or a record whose question is a list or
  an object) and the run ends before any task is submitted.
\<close>

theorem load_failure_is_cold_start:
  assumes "list_all (\<lambda>item. hashable (dict_get item ''question'')) data"
  shows "(try_load lib fs outfile = Inl e \<or> try_load lib fs outfile = Inr (JArr []) \<longrightarrow>
            load_out_data lib fs outfile = JArr [] \<and>
            remaining lib fs outfile data = Inr data \<and>
            main lib env outfile concurrency completion fs data =
              (if concurrency \<le> 0 then (Some ValueError, fs, [])
               else collect lib outfile
                      (map (\<lambda>i. map (process_item env) data ! i) completion) (fs, []))) \<and>
         (\<forall>v e'. try_load lib fs outfile = Inr v \<and> done_questions v = Inl e' \<longrightarrow>
            load_out_data lib fs outfile = v \<and>
            main lib env outfile concurrency completion fs data = (Some e', fs, [])) \<and>
         (\<forall>d. d \<noteq> [] \<longrightarrow> done_questions (JObj d) = Inl AttributeError) \<and>
         (\<forall>s. s \<noteq> [] \<longrightarrow> done_questions (JStr s) = Inl AttributeError) \<and>
         (\<forall>vs. (\<exists>v\<in>set vs. \<forall>d. v \<noteq> JObj d) \<longrightarrow> done_questions (JArr vs) = Inl AttributeError) \<and>
         (\<forall>n. done_questions (JNum n) = Inl TypeError) \<and>
         (\<forall>b. done_questions (JBool b) = Inl TypeError) \<and>
         done_questions JNull = Inl TypeError \<and>
         (\<forall>recs. \<not> list_all (\<lambda>r. hashable (dict_get r ''question'')) recs \<longrightarrow>
            done_questions (JArr (map JObj recs)) = Inl TypeError)"
proof -
  have cold: "try_load lib fs outfile = Inl e \<or> try_load lib fs outfile = Inr (JArr []) \<longrightarrow>
            load_out_data lib fs outfile = JArr [] \<and>
            remaining lib fs outfile data = Inr data \<and>
            main lib env outfile concurrency completion fs data =
              (if concurrency \<le> 0 then (Some ValueError, fs, [])
               else collect lib outfile
                      (map (\<lambda>i. map (process_item env) data ! i) completion) (fs, []))"
    using assms
    by (auto simp: load_out_data_def remaining_def main_def done_questions_empty data_to_run_filter)
  have abort: "\<forall>v e'. try_load lib fs outfile = Inr v \<and> done_questions v = Inl e' \<longrightarrow>
            load_out_data lib fs outfile = v \<and>
            main lib env outfile concurrency completion fs data = (Some e', fs, [])"
    by (simp add: load_out_data_def remaining_def main_def)
  have scalars: "(\<forall>n. done_questions (JNum n) = Inl TypeError) \<and>
         (\<forall>b. done_questions (JBool b) = Inl TypeError) \<and>
         done_questions JNull = Inl TypeError"
    by (simp add: done_questions_def py_iter_def)
  from cold abort scalars show ?thesis
    using done_questions_object done_questions_string done_questions_other_list
      done_questions_unhashable
    by blast
qed

theorem load_failure_is_cold_start_witness:
  "try_load json_excerpt Map.empty ''out.jsonl'' = Inl FileNotFoundError \<and>
   try_load json_excerpt [''out.json'' \<mapsto> ''{not json''] ''out.json'' = Inl JSONDecodeError \<and>
   try_load json_excerpt [''out.json'' \<mapsto> [CHR 0xFF]] ''out.json'' = Inl UnicodeDecodeError \<and>
   try_load json_excerpt [''out.jsonl'' \<mapsto> ''''] ''out.jsonl'' = Inr (JArr []) \<and>
   remaining json_excerpt Map.empty ''out.jsonl'' [item_Q1, item_Q2] = Inr [item_Q1, item_Q2] \<and>
   remaining json_excerpt [''out.json'' \<mapsto> ''{not json''] ''out.json'' [item_Q1, item_Q2] =
     Inr [item_Q1, item_Q2] \<and>
   remaining json_excerpt [''out.json'' \<mapsto> [CHR 0xFF]] ''out.json'' [item_Q1, item_Q2] =
     Inr [item_Q1, item_Q2] \<and>
   remaining json_excerpt [''out.jsonl'' \<mapsto> ''''] ''out.jsonl'' [item_Q1, item_Q2] =
     Inr [item_Q1, item_Q2]"
proof -
  have missing: "try_load json_excerpt Map.empty ''out.jsonl'' = Inl FileNotFoundError"
    by (simp add: load_simps path_simps)
  have malformed:
    "try_load json_excerpt [''out.json'' \<mapsto> ''{not json''] ''out.json'' = Inl JSONDecodeError"
    by (simp add: load_simps path_simps excerpt_simps valid_utf8_def utf8_lead_def)
  have undecodable:
    "try_load json_excerpt [''out.json'' \<mapsto> [CHR 0xFF]] ''out.json'' = Inl UnicodeDecodeError"
    by (simp add: load_simps path_simps valid_utf8_def utf8_lead_def)
  have empty: "try_load json_excerpt [''out.jsonl'' \<mapsto> ''''] ''out.jsonl'' = Inr (JArr [])"
    by (simp add: load_simps path_simps valid_utf8_def)
  have data: "list_all (\<lambda>item. hashable (dict_get item ''question'')) [item_Q1, item_Q2]"
    by (simp add: item_Q1_def item_Q2_def dict_get_def)
  note cold = load_failure_is_cold_start [OF data, THEN conjunct1, rule_format]
  show ?thesis
    using cold [OF disjI1 [OF missing]] cold [OF disjI1 [OF malformed]]
      cold [OF disjI1 [OF undecodable]] cold [OF disjI2 [OF empty]]
      missing malformed undecodable empty
    by simp
qed

lemma safe_write_line:
  "\<not> is_json_output outfile \<Longrightarrow>
   safe_write lib outfile fs result =
     Inr (fs(outfile \<mapsto> content fs outfile @ json_dumps lib (JObj result) @ [CHR 0x0A]))"
  by (simp add: safe_write_def write_jsonl_def)

lemma collect_line_grows:
  "\<not> is_json_output outfile \<Longrightarrow>
   \<exists>added. content (fst (snd (collect lib outfile outcomes (fs, results)))) outfile =
     content fs outfile @ added"
proof (induction outcomes arbitrary: fs results)
  case Nil
  then show ?case by simp
next
  case (Cons outcome outcomes)
  show ?case
  proof (cases outcome)
    case (Inl e)
    then show ?thesis by simp
  next
    case (Inr result)
    show ?thesis
    proof (cases "result = []")
      case True
      with Inr Cons show ?thesis by simp
    next
      case False
      let ?fs = "fs(outfile \<mapsto> content fs outfile @ json_dumps lib (JObj result) @ [CHR 0x0A])"
      from Cons.IH [OF Cons.prems, of ?fs "results @ [result]"]
      obtain added where
        "content (fst (snd (collect lib outfile outcomes (?fs, results @ [result])))) outfile =
           content ?fs outfile @ added"
        by blast
      with Inr False Cons.prems show ?thesis
        by (simp add: safe_write_line content_def)
    qed
  qed
qed

text \<open>
  Claim C8. For a line-delimited output, \<^verbatim>\<open>safe_write\<close> gives the file its former text
  followed by one serialized record and one line terminator; the existing text is not
  parsed (the result is the same under any other parser), so what was written before
  stays as a prefix. Over a whole run of \<^verbatim>\<open>main\<close> the text of the store only grows at
  its end: it is never truncated or reordered.
\<close>

theorem line_store_append_only:
  assumes "\<not> is_json_output outfile"
  shows "safe_write lib outfile fs result =
           Inr (fs(outfile \<mapsto> content fs outfile @ json_dumps lib (JObj result) @ [CHR 0x0A])) \<and>
         safe_write (lib\<lparr>json_load := other_load\<rparr>) outfile fs result =
           safe_write lib outfile fs result \<and>
         (\<exists>added. content (fst (snd (main lib env outfile concurrency completion fs data))) outfile =
            content fs outfile @ added)"
proof -
  have "\<exists>added. content (fst (snd (main lib env outfile concurrency completion fs data))) outfile =
      content fs outfile @ added"
  proof (cases "remaining lib fs outfile data")
    case (Inl e)
    then show ?thesis by (simp add: main_def)
  next
    case (Inr todo)
    then show ?thesis
      using collect_line_grows [OF assms] by (simp add: main_def)
  qed
  with assms show ?thesis
    by (simp add: safe_write_line)
qed

theorem line_store_append_only_witness:
  "\<not> is_json_output ''out.jsonl'' \<and>
   safe_write json_excerpt ''out.jsonl'' [''out.jsonl'' \<mapsto> ''partial line''] rec_Q1 =
     Inr [''out.jsonl'' \<mapsto> ''partial line'' @ line_Q1 @ [CHR 0x0A]]"
proof -
  have mode: "\<not> is_json_output ''out.jsonl''"
    by (simp add: path_simps)
  show ?thesis
    using line_store_append_only [OF mode, of json_excerpt "[''out.jsonl'' \<mapsto> ''partial line'']" rec_Q1]
      mode
    by (simp add: content_def json_excerpt_def excerpt_lib_def rec_Q1_def rec_Q2_def)
qed

lemma existing_data_cases:
  "existing_data lib fs outfile =
     (case fs outfile of
        None \<Rightarrow> Inr (JArr [])
      | Some s \<Rightarrow>
          if valid_utf8 s
          then (case json_load lib s of None \<Rightarrow> Inr (JArr []) | Some v \<Rightarrow> Inr v)
          else Inl UnicodeDecodeError)"
  by (simp add: existing_data_def load_json_file_def open_read_def split: option.splits)

lemma safe_write_array:
  "is_json_output outfile \<Longrightarrow> existing_data lib fs outfile = Inr (JArr records) \<Longrightarrow>
   safe_write lib outfile fs result =
     Inr (shutil_move
            (fs(outfile @ ''.tmp'' \<mapsto> json_dump lib (JArr (records @ [JObj result]))))
            (outfile @ ''.tmp'') outfile)"
  by (simp add: safe_write_def)



lemma shutil_move_tmp:
  "shutil_move (fs(outfile @ ''.tmp'' \<mapsto> text)) (outfile @ ''.tmp'') outfile =
     (fs(outfile \<mapsto> text))(outfile @ ''.tmp'' := None)"
  by (rule ext) (simp add: shutil_move_def)

lemma safe_write_array_files:
  "is_json_output outfile \<Longrightarrow> existing_data lib fs outfile = Inr (JArr records) \<Longrightarrow>
   safe_write lib outfile fs result =
     Inr ((fs(outfile \<mapsto> json_dump lib (JArr (records @ [JObj result]))))
            (outfile @ ''.tmp'' := None))"
  by (simp only: safe_write_array shutil_move_tmp)

lemma existing_after_write:
  "valid_utf8 text \<Longrightarrow> json_load lib text = Some v \<Longrightarrow>
   existing_data lib ((fs(outfile \<mapsto> text))(outfile @ ''.tmp'' := None)) outfile = Inr v"
  by (simp add: existing_data_cases)





lemma map_of_dict_unpack:
  "map_of (dict_unpack base extra) = map_of base ++ map_of (rev extra)"
proof (induction extra arbitrary: base)
  case Nil
  then show ?case by (simp add: dict_unpack_def)
next
  case (Cons kv extra)
  obtain k v where kv: "kv = (k, v)" by (cases kv)
  have "dict_unpack base (kv # extra) = dict_unpack (AList.update k v base) extra"
    by (simp add: dict_unpack_def kv)
  then have "map_of (dict_unpack base (kv # extra)) =
      map_of (AList.update k v base) ++ map_of (rev extra)"
    by (simp only: Cons.IH)
  also have "\<dots> = (map_of base)(k \<mapsto> v) ++ map_of (rev extra)"
    by (simp only: update_conv')
  also have "\<dots> = map_of base ++ map_of (rev (kv # extra))"
    by (rule ext) (simp add: kv map_add_def split: option.splits)
  finally show ?case .
qed

lemma dict_get_unpack:
  "dict_get (dict_unpack base extra) k =
     (if k \<in> fst ` set extra then dict_get (rev extra) k else dict_get base k)"
proof (cases "map_of (rev extra) k")
  case None
  then have "k \<notin> fst ` set extra"
    by (simp add: map_of_eq_None_iff)
  with None show ?thesis
    by (simp add: dict_get_def map_of_dict_unpack map_add_def)
next
  case (Some v)
  then have "k \<in> fst ` set extra"
    using map_of_eq_None_iff [of "rev extra" k] by auto
  with Some show ?thesis
    by (simp add: dict_get_def map_of_dict_unpack map_add_def)
qed

lemma keys_dict_unpack:
  "fst ` set (dict_unpack base extra) = fst ` set base \<union> fst ` set extra"
proof -
  have "dom (map_of (dict_unpack base extra)) = dom (map_of base) \<union> dom (map_of (rev extra))"
    by (simp add: map_of_dict_unpack Un_commute)
  then show ?thesis
    by (simp add: dom_map_of_conv_image_fst)
qed

lemma process_item_record:
  assumes "process_item env item = Inr r"
  shows "\<exists>question0 golden_answer question.
           MMSearchAgent env = None \<and>
           getitem item ''question'' = Inr question0 \<and>
           getitem item ''answer'' = Inr golden_answer \<and>
           describe_attachment env item question0 = Inr question \<and>
           ((\<exists>e. search_agent env question = Inl e \<and> is_Exception e \<and> sliceable question \<and>
                 r = failed_record question golden_answer e) \<or>
            (\<exists>out. search_agent env question = Inr (JObj out) \<and>
                 r = success_record question golden_answer out))"
  using assms
  by (auto simp: process_item_def split: option.splits sum.splits if_splits json.splits)

lemma describe_attachment_text:
  assumes "describe_attachment env item (JStr q) = Inr question"
  shows "(\<not> truthy (dict_get item ''file_name'') \<and> question = JStr q) \<or>
         (truthy (dict_get item ''file_name'') \<and>
          (\<exists>description.
             (str_in ''.zip'' (dict_get item ''file_name'') = Inr True \<and>
              get_zip_description env (dict_get item ''file_name'') (JStr q) = Inr description \<and>
              question = JStr (q @ files_intro @ description)) \<or>
             (str_in ''.zip'' (dict_get item ''file_name'') = Inr False \<and>
              get_single_file_description env (dict_get item ''file_name'') (JStr q) =
                Inr description \<and>
              question = JStr (q @ file_intro @ description))))"
  using assms
  by (auto simp: describe_attachment_def getitem_def dict_get_def iadd_str_def
      split: option.splits sum.splits if_splits)

lemmas task_simps = process_item_def describe_attachment_def getitem_def dict_get_def
  iadd_str_def str_in_def failed_record_def success_record_def dict_unpack_def
  returning_def agent_raising_def description_raising_def
  item_Q1_def item_Q2_def item_png_def rec_Q1_def rec_Q2_def failed_Q1_def
  file_intro_def files_intro_def




text \<open>
  The output of the agent is unpacked last into the record, so a status field of the
  agent's own replaces \<^verbatim>\<open>"success"\<close>.
\<close>

theorem worker_status_overrides:
  "process_item (returning (JObj [(''status'', JStr ''partial'')])) item_Q1 =
     Inr [(''question'', JStr ''Q1''), (''golden_answer'', JStr ''A1''),
          (''status'', JStr ''partial'')]"
  by (simp add: task_simps)

text \<open>
  Claim C4, as the code has it. Every record \<^verbatim>\<open>process_item\<close> returns has the keys
  question, golden_answer and status. It is either the failed record, with status
  \<^verbatim>\<open>"failed"\<close>, error the message and error_trace the traceback of the exception of the
  agent call, and no field of the agent; or the record of a success, which holds every
  field of the agent's output with the agent's value and, for every other key, question,
  golden_answer and status \<^verbatim>\<open>"success"\<close>: the status is \<^verbatim>\<open>"success"\<close> unless the agent's
  output has a status of its own.
\<close>

theorem record_shape:
  assumes "process_item env item = Inr r"
  shows "{''question'', ''golden_answer'', ''status''} \<subseteq> fst ` set r \<and>
         ((\<exists>question golden_answer e.
             search_agent env question = Inl e \<and> is_Exception e \<and>
             r = [(''question'', question),
                  (''golden_answer'', golden_answer),
                  (''error'', JStr (str_e e)),
                  (''error_trace'', JStr (format_exc e)),
                  (''status'', JStr ''failed'')]) \<or>
          (\<exists>question golden_answer out.
             search_agent env question = Inr (JObj out) \<and>
             r = dict_unpack
                   [(''question'', question),
                    (''golden_answer'', golden_answer),
                    (''status'', JStr ''success'')]
                   out \<and>
             (\<forall>k. dict_get r k =
                (if k \<in> fst ` set out then dict_get (rev out) k
                 else dict_get
                        [(''question'', question),
                         (''golden_answer'', golden_answer),
                         (''status'', JStr ''success'')] k))))"
proof -
  from process_item_record [OF assms] obtain question golden_answer where
    "(\<exists>e. search_agent env question = Inl e \<and> is_Exception e \<and>
          r = failed_record question golden_answer e) \<or>
     (\<exists>out. search_agent env question = Inr (JObj out) \<and>
          r = success_record question golden_answer out)"
    by blast
  then show ?thesis
  proof
    assume "\<exists>e. search_agent env question = Inl e \<and> is_Exception e \<and>
      r = failed_record question golden_answer e"
    then obtain e where "search_agent env question = Inl e" "is_Exception e"
      "r = failed_record question golden_answer e"
      by blast
    then show ?thesis
      by (auto simp: failed_record_def)
  next
    assume "\<exists>out. search_agent env question = Inr (JObj out) \<and>
      r = success_record question golden_answer out"
    then obtain out where out: "search_agent env question = Inr (JObj out)"
      "r = success_record question golden_answer out"
      by blast
    have keys: "{''question'', ''golden_answer'', ''status''} \<subseteq> fst ` set r"
      by (simp add: out(2) success_record_def keys_dict_unpack)
    have look: "\<forall>k. dict_get r k =
        (if k \<in> fst ` set out then dict_get (rev out) k
         else dict_get
                [(''question'', question),
                 (''golden_answer'', golden_answer),
                 (''status'', JStr ''success'')] k)"
      by (simp only: out(2) success_record_def dict_get_unpack) simp
    from out keys look show ?thesis
      unfolding success_record_def by blast
  qed
qed

theorem record_shape_witness:
  "process_item (returning (JObj [(''result'', JStr ''ok'')])) item_Q1 = Inr rec_Q1 \<and>
   dict_get rec_Q1 ''status'' = JStr ''success'' \<and>
   dict_get rec_Q1 ''result'' = JStr ''ok'' \<and>
   process_item (agent_raising (Raised True ''boom'' ''Traceback'')) item_Q1 = Inr failed_Q1 \<and>
   dict_get failed_Q1 ''status'' = JStr ''failed''"
proof -
  have ok: "process_item (returning (JObj [(''result'', JStr ''ok'')])) item_Q1 = Inr rec_Q1"
    by (simp add: task_simps)
  have bad: "process_item (agent_raising (Raised True ''boom'' ''Traceback'')) item_Q1 =
      Inr failed_Q1"
    by (simp add: task_simps)
  have "{''question'', ''golden_answer'', ''status''} \<subseteq> fst ` set rec_Q1"
    using record_shape [OF ok] by blast
  moreover have "{''question'', ''golden_answer'', ''status''} \<subseteq> fst ` set failed_Q1"
    using record_shape [OF bad] by blast
  ultimately show ?thesis
    using ok bad by (simp add: dict_get_def rec_Q1_def failed_Q1_def)
qed

text \<open>
  For an item without attachment whose agent returns a question field, the stored
  question is the agent's and not the question of the item.
\<close>

theorem worker_question_overrides:
  "process_item (returning (JObj [(''question'', JStr ''Z'')])) item_Q1 =
     Inr [(''question'', JStr ''Z''), (''golden_answer'', JStr ''A1''),
          (''status'', JStr ''success'')] \<and>
   dict_get item_Q1 ''question'' = JStr ''Q1'' \<and>
   dict_get item_Q1 ''file_name'' = JNull"
  by (simp add: task_simps)

text \<open>
  Claim C9, as the code has it. For an item whose question is a text and an agent whose
  output has no question field: without a truthy \<^verbatim>\<open>file_name\<close> the record stores the
  question of the item; with one, it stores that question followed by the introduction
  sentence and the description of the attachment, which differs from the question of the
  item. The stored question is the key the record contributes to the completion set of a
  later run.
\<close>

theorem stored_question:
  assumes "process_item env item = Inr r"
    and "map_of item ''question'' = Some (JStr q)"
    and "\<forall>question out. search_agent env question = Inr (JObj out) \<longrightarrow>
           ''question'' \<notin> fst ` set out"
  shows "(\<not> truthy (dict_get item ''file_name'') \<longrightarrow> dict_get r ''question'' = JStr q) \<and>
         (truthy (dict_get item ''file_name'') \<longrightarrow>
            dict_get r ''question'' \<noteq> JStr q \<and>
            (\<exists>description.
               (str_in ''.zip'' (dict_get item ''file_name'') = Inr True \<and>
                get_zip_description env (dict_get item ''file_name'') (JStr q) = Inr description \<and>
                dict_get r ''question'' = JStr (q @ files_intro @ description)) \<or>
               (str_in ''.zip'' (dict_get item ''file_name'') = Inr False \<and>
                get_single_file_description env (dict_get item ''file_name'') (JStr q) =
                  Inr description \<and>
                dict_get r ''question'' = JStr (q @ file_intro @ description)))) \<and>
         done_questions (JArr [JObj r]) = Inr {dict_get r ''question''}"
proof -
  from process_item_record [OF assms(1)] assms(2) obtain golden_answer question where
    described: "describe_attachment env item (JStr q) = Inr question" and
    made: "(\<exists>e. search_agent env question = Inl e \<and> is_Exception e \<and> sliceable question \<and>
          r = failed_record question golden_answer e) \<or>
     (\<exists>out. search_agent env question = Inr (JObj out) \<and>
          r = success_record question golden_answer out)"
    by (auto simp: getitem_def)
  have stored: "dict_get r ''question'' = question"
    using made assms(3)
    by (auto simp: failed_record_def success_record_def dict_get_unpack) (simp_all add: dict_get_def)
  have is_text: "\<exists>s. question = JStr s"
    using describe_attachment_text [OF described] by auto
  then have key: "done_questions (JArr [JObj r]) = Inr {dict_get r ''question''}"
    using stored by (auto simp: done_questions_def py_iter_def py_set_def)
  from describe_attachment_text [OF described] stored key show ?thesis
    by (auto simp: files_intro_def file_intro_def)
qed

theorem stored_question_witness:
  "process_item (returning (JObj [(''result'', JStr ''ok'')])) item_png =
     Inr [(''question'', JStr (''Q3'' @ file_intro @ '' a picture'')),
          (''golden_answer'', JStr ''A3''),
          (''status'', JStr ''success''),
          (''result'', JStr ''ok'')] \<and>
   dict_get [(''question'', JStr (''Q3'' @ file_intro @ '' a picture'')),
             (''golden_answer'', JStr ''A3''),
             (''status'', JStr ''success''),
             (''result'', JStr ''ok'')] ''question'' = JStr (''Q3'' @ file_intro @ '' a picture'') \<and>
   process_item (returning (JObj [(''result'', JStr ''ok'')])) item_Q1 = Inr rec_Q1 \<and>
   dict_get rec_Q1 ''question'' = JStr ''Q1''"
proof -
  let ?env = "returning (JObj [(''result'', JStr ''ok'')])"
  let ?r = "[(''question'', JStr (''Q3'' @ file_intro @ '' a picture'')),
          (''golden_answer'', JStr ''A3''),
          (''status'', JStr ''success''),
          (''result'', JStr ''ok'')]"
  have png: "process_item ?env item_png = Inr ?r"
    by (simp add: task_simps)
  have plain: "process_item ?env item_Q1 = Inr rec_Q1"
    by (simp add: task_simps)
  have q3: "map_of item_png ''question'' = Some (JStr ''Q3'')"
    by (simp add: item_png_def)
  have q1: "map_of item_Q1 ''question'' = Some (JStr ''Q1'')"
    by (simp add: item_Q1_def)
  have worker: "\<forall>question out. search_agent ?env question = Inr (JObj out) \<longrightarrow>
      ''question'' \<notin> fst ` set out"
    by (auto simp: returning_def)
  have "dict_get rec_Q1 ''question'' = JStr ''Q1''"
    using stored_question [OF plain q1 worker] by (simp add: dict_get_def item_Q1_def)
  moreover have "dict_get ?r ''question'' = JStr (''Q3'' @ file_intro @ '' a picture'')"
    using stored_question [OF png q3 worker] by (simp add: dict_get_def)
  ultimately show ?thesis
    using png plain by simp
qed

lemma py_key_hashable: "py_key a = py_key b \<Longrightarrow> hashable b \<Longrightarrow> hashable a"
  by (cases a; cases b) auto

text \<open>
  Claim C2. Resume: when the prior output loads as a list of records with hashable
  questions and the question of every input item is the question of a prior record with
  status \<^verbatim>\<open>"success"\<close>, no item is left to run; \<^verbatim>\<open>main\<close> submits no task, returns
  no new record and leaves the files as they are, whatever the concurrency (a
  concurrency that is not positive makes the pool raise ValueError, with no record and
  no change either).
\<close>

theorem resume_idempotent:
  assumes "load_out_data lib fs outfile = JArr (map JObj recs)"
    and "list_all (\<lambda>r. hashable (dict_get r ''question'')) recs"
    and "list_all
           (\<lambda>item. list_ex
              (\<lambda>r. py_key (dict_get r ''question'') = py_key (dict_get item ''question'') \<and>
                    dict_get r ''status'' = JStr ''success'') recs)
           data"
  shows "remaining lib fs outfile data = Inr [] \<and>
         main lib env outfile concurrency [] fs data =
           (if concurrency \<le> 0 then Some ValueError else None, fs, [])"
proof -
  have hashed: "list_all (\<lambda>item. hashable (dict_get item ''question'')) data"
    using assms(2,3) by (simp add: list_all_iff list_ex_iff) (metis py_key_hashable)
  have "filter (\<lambda>item. py_key (dict_get item ''question'')
                   \<notin> (\<lambda>r. py_key (dict_get r ''question'')) ` set recs) data = []"
    using assms(3) by (simp add: filter_empty_conv list_all_iff list_ex_iff image_iff) metis
  then have "remaining lib fs outfile data = Inr []"
    using assms(1,2) hashed
    by (simp add: remaining_def done_questions_records data_to_run_filter)
  then show ?thesis
    by (simp add: main_def)
qed

theorem resume_idempotent_witness:
  "load_out_data json_excerpt [''out.json'' \<mapsto> doc_Q1_Q2] ''out.json'' =
     JArr [JObj rec_Q1, JObj rec_Q2] \<and>
   remaining json_excerpt [''out.json'' \<mapsto> doc_Q1_Q2] ''out.json'' [item_Q2, item_Q1] = Inr [] \<and>
   main json_excerpt (returning (JObj [(''result'', JStr ''ok'')])) ''out.json'' 15 []
     [''out.json'' \<mapsto> doc_Q1_Q2] [item_Q2, item_Q1] =
     (None, [''out.json'' \<mapsto> doc_Q1_Q2], [])"
proof -
  have load: "load_out_data json_excerpt [''out.json'' \<mapsto> doc_Q1_Q2] ''out.json'' =
      JArr (map JObj [rec_Q1, rec_Q2])"
    by (simp add: load_simps path_simps excerpt_texts) (simp add: excerpt_simps)
  have recs: "list_all (\<lambda>r. hashable (dict_get r ''question'')) [rec_Q1, rec_Q2]"
    by (simp add: rec_Q1_def rec_Q2_def dict_get_def)
  have data: "list_all
           (\<lambda>item. list_ex
              (\<lambda>r. py_key (dict_get r ''question'') = py_key (dict_get item ''question'') \<and>
                    dict_get r ''status'' = JStr ''success'') [rec_Q1, rec_Q2])
           [item_Q2, item_Q1]"
    by (simp add: rec_Q1_def rec_Q2_def item_Q1_def item_Q2_def dict_get_def)
  show ?thesis
    using resume_idempotent [OF load recs data, of "returning (JObj [(''result'', JStr ''ok'')])" 15]
      load
    by simp
qed

lemma lines_from_line:
  "CHR 0x0A \<notin> set t \<Longrightarrow> lines_from cur (t @ CHR 0x0A # rest) = (cur @ t) # lines_from [] rest"
  by (induction t arbitrary: cur) auto

lemma lines_from_records:
  "list_all (\<lambda>r. CHR 0x0A \<notin> set (d r)) recs \<Longrightarrow>
   lines_from [] (concat (map (\<lambda>r. d r @ [CHR 0x0A]) recs)) = map d recs"
proof (induction recs)
  case Nil
  then show ?case by simp
next
  case (Cons r recs)
  then have "lines_from [] (d r @ CHR 0x0A # concat (map (\<lambda>r. d r @ [CHR 0x0A]) recs)) =
      ([] @ d r) # lines_from [] (concat (map (\<lambda>r. d r @ [CHR 0x0A]) recs))"
    by (intro lines_from_line) simp
  with Cons show ?case by simp
qed

lemma parse_lines_records:
  "list_all (\<lambda>r. json_load lib (d r) = Some (JObj r)) recs \<Longrightarrow>
   parse_lines lib (map d recs) = Inr (map JObj recs)"
  by (induction recs) auto

lemma collect_lines:
  "\<not> is_json_output outfile \<Longrightarrow> list_all (\<lambda>r. r \<noteq> []) recs \<Longrightarrow> recs \<noteq> [] \<Longrightarrow>
   collect lib outfile (map Inr recs) (fs, acc) =
     (None,
      fs(outfile \<mapsto> content fs outfile
             @ concat (map (\<lambda>r. json_dumps lib (JObj r) @ [CHR 0x0A]) recs)),
      acc @ recs)"
proof (induction recs arbitrary: fs acc)
  case Nil
  then show ?case by simp
next
  case (Cons r recs)
  let ?line = "json_dumps lib (JObj r) @ [CHR 0x0A]"
  let ?more = "concat (map (\<lambda>r. json_dumps lib (JObj r) @ [CHR 0x0A]) recs)"
  let ?fs = "fs(outfile \<mapsto> content fs outfile @ ?line)"
  have step: "collect lib outfile (map Inr (r # recs)) (fs, acc) =
      collect lib outfile (map Inr recs) (?fs, acc @ [r])"
    using Cons.prems by (simp add: safe_write_line)
  have rest: "list_all (\<lambda>r. r \<noteq> []) recs"
    using Cons.prems(2) by simp
  have grown: "content ?fs outfile = content fs outfile @ ?line"
    by (simp add: content_def)
  have again: "?fs(outfile \<mapsto> (content fs outfile @ ?line) @ ?more) =
      fs(outfile \<mapsto> content fs outfile @ ?line @ ?more)"
    by simp
  show ?case
  proof (cases "recs = []")
    case True
    have "collect lib outfile (map Inr recs) (?fs, acc @ [r]) = (None, ?fs, acc @ [r])"
      by (simp add: True)
    then show ?thesis
      by (simp only: step) (simp add: True fun_eq_iff)
  next
    case False
    have "collect lib outfile (map Inr recs) (?fs, acc @ [r]) =
        (None, ?fs(outfile \<mapsto> content ?fs outfile @ ?more), (acc @ [r]) @ recs)"
      by (rule Cons.IH [OF Cons.prems(1) rest False])
    then have "collect lib outfile (map Inr recs) (?fs, acc @ [r]) =
        (None, fs(outfile \<mapsto> content fs outfile @ ?line @ ?more), acc @ r # recs)"
      by (simp only: grown again) simp
    then show ?thesis
      by (simp only: step) (simp add: fun_eq_iff)
  qed
qed

lemma skip_newlines:
  "list_all (\<lambda>c. c = CHR 0x0A) nl \<Longrightarrow>
   filter (\<lambda>l. l \<noteq> []) (lines_from [] (nl @ t)) = filter (\<lambda>l. l \<noteq> []) (lines_from [] t)"
  by (induction nl) simp_all

lemma valid_utf8_lines:
  "list_all (\<lambda>r. valid_utf8 (d r)) recs \<Longrightarrow>
   valid_utf8 (concat (map (\<lambda>r. d r @ [CHR 0x0A]) recs))"
proof (induction recs)
  case Nil
  then show ?case by (simp add: valid_utf8_def)
next
  case (Cons r recs)
  let ?rest = "concat (map (\<lambda>r. d r @ [CHR 0x0A]) recs)"
  have "valid_utf8 (d r)"
    using Cons.prems by simp
  then have "valid_utf8 (d r @ [CHR 0x0A] @ ?rest) = valid_utf8 ([CHR 0x0A] @ ?rest)"
    by (rule valid_utf8_append)
  also have "\<dots> = valid_utf8 ?rest"
    by (rule valid_utf8_append) (simp add: valid_utf8_newlines)
  also have "\<dots>"
    using Cons by simp
  finally show ?case by simp
qed

lemma load_is_existing:
  "is_json_output outfile \<Longrightarrow> existing_data lib fs outfile = Inr v \<Longrightarrow>
   load_out_data lib fs outfile = v"
  by (auto simp: load_out_data_def try_load_def existing_data_def split: sum.splits if_splits)

lemma empty_store_loads:
  assumes "empty_store lib fs outfile"
  shows "load_out_data lib fs outfile = JArr []"
proof (cases "is_json_output outfile")
  case True
  with assms have "existing_data lib fs outfile = Inr (JArr [])"
    by (simp add: empty_store_def)
  with True show ?thesis
    by (rule load_is_existing)
next
  case False
  with assms have blank: "list_all (\<lambda>c. c = CHR 0x0A) (content fs outfile)"
    by (simp add: empty_store_def)
  show ?thesis
  proof (cases "fs outfile")
    case None
    with False show ?thesis
      by (simp add: load_out_data_def try_load_def read_jsonl_def open_read_def)
  next
    case (Some s)
    with blank have s: "list_all (\<lambda>c. c = CHR 0x0A) s"
      by (simp add: content_def)
    then have decoded: "valid_utf8 s"
      by (rule valid_utf8_newlines)
    have "filter (\<lambda>l. l \<noteq> []) (lines_from [] (s @ [])) = filter (\<lambda>l. l \<noteq> []) (lines_from [] [])"
      using s by (rule skip_newlines)
    then have "filter (\<lambda>l. l \<noteq> []) (lines_from [] s) = []"
      by simp
    with False Some decoded show ?thesis
      by (simp add: load_out_data_def try_load_def read_jsonl_def open_read_def)
  qed
qed

lemma remaining_cold:
  "empty_store lib fs outfile \<Longrightarrow>
   list_all (\<lambda>item. hashable (dict_get item ''question'')) data \<Longrightarrow>
   remaining lib fs outfile data = Inr data"
  by (simp add: remaining_def empty_store_loads done_questions_empty data_to_run_filter)

lemma collect_array:
  "is_json_output outfile \<Longrightarrow> list_all (\<lambda>r. r \<noteq> []) recs \<Longrightarrow>
   existing_data lib fs outfile = Inr (JArr (map JObj pre)) \<Longrightarrow>
   (\<forall>n. 0 < n \<and> n \<le> length recs \<longrightarrow>
      valid_utf8 (json_dump lib (JArr (map JObj (pre @ take n recs)))) \<and>
      json_load lib (json_dump lib (JArr (map JObj (pre @ take n recs)))) =
        Some (JArr (map JObj (pre @ take n recs)))) \<Longrightarrow>
   fst (collect lib outfile (map Inr recs) (fs, acc)) = None \<and>
   snd (snd (collect lib outfile (map Inr recs) (fs, acc))) = acc @ recs \<and>
   existing_data lib (fst (snd (collect lib outfile (map Inr recs) (fs, acc)))) outfile =
     Inr (JArr (map JObj (pre @ recs)))"
proof (induction recs arbitrary: fs acc pre)
  case Nil
  then show ?case by simp
next
  case (Cons r recs)
  let ?text = "json_dump lib (JArr (map JObj pre @ [JObj r]))"
  let ?fs = "(fs(outfile \<mapsto> ?text))(outfile @ ''.tmp'' := None)"
  have written: "safe_write lib outfile fs r = Inr ?fs"
    by (rule safe_write_array_files [OF Cons.prems(1) Cons.prems(3)])
  have "0 < (1::nat) \<and> 1 \<le> length (r # recs) \<longrightarrow>
      valid_utf8 (json_dump lib (JArr (map JObj (pre @ take 1 (r # recs))))) \<and>
      json_load lib (json_dump lib (JArr (map JObj (pre @ take 1 (r # recs))))) =
      Some (JArr (map JObj (pre @ take 1 (r # recs))))"
    using Cons.prems(4) by (rule spec)
  then have decoded: "valid_utf8 ?text"
    and parsed: "json_load lib ?text = Some (JArr (map JObj (pre @ [r])))"
    by simp_all
  from decoded parsed
  have existing: "existing_data lib ?fs outfile = Inr (JArr (map JObj (pre @ [r])))"
    by (rule existing_after_write)
  have later: "\<forall>n. 0 < n \<and> n \<le> length recs \<longrightarrow>
      valid_utf8 (json_dump lib (JArr (map JObj ((pre @ [r]) @ take n recs)))) \<and>
      json_load lib (json_dump lib (JArr (map JObj ((pre @ [r]) @ take n recs)))) =
        Some (JArr (map JObj ((pre @ [r]) @ take n recs)))"
  proof (intro allI impI)
    fix n
    assume "0 < n \<and> n \<le> length recs"
    then have n: "0 < Suc n \<and> Suc n \<le> length (r # recs)"
      by simp
    have "0 < Suc n \<and> Suc n \<le> length (r # recs) \<longrightarrow>
      valid_utf8 (json_dump lib (JArr (map JObj (pre @ take (Suc n) (r # recs))))) \<and>
      json_load lib (json_dump lib (JArr (map JObj (pre @ take (Suc n) (r # recs))))) =
        Some (JArr (map JObj (pre @ take (Suc n) (r # recs))))"
      using Cons.prems(4) by (rule spec)
    with n show "valid_utf8 (json_dump lib (JArr (map JObj ((pre @ [r]) @ take n recs)))) \<and>
      json_load lib (json_dump lib (JArr (map JObj ((pre @ [r]) @ take n recs)))) =
        Some (JArr (map JObj ((pre @ [r]) @ take n recs)))"
      by simp
  qed
  have rest: "list_all (\<lambda>r. r \<noteq> []) recs"
    using Cons.prems(2) by simp
  have nonempty: "r \<noteq> []"
    using Cons.prems(2) by simp
  have step: "collect lib outfile (map Inr (r # recs)) (fs, acc) =
      collect lib outfile (map Inr recs) (?fs, acc @ [r])"
    by (simp only: list.map collect.simps written nonempty sum.case) simp
  have shape: "(acc @ [r]) @ recs = acc @ r # recs" "(pre @ [r]) @ recs = pre @ r # recs"
    by simp_all
  from Cons.IH [OF Cons.prems(1) rest existing later, of "acc @ [r]"] show ?case
    by (simp only: step shape)
qed

lemma process_item_nonempty: "process_item env item = Inr r \<Longrightarrow> r \<noteq> []"
proof -
  assume "process_item env item = Inr r"
  from process_item_record [OF this] obtain question golden_answer where
    "(\<exists>e. r = failed_record question golden_answer e) \<or>
     (\<exists>out. r = success_record question golden_answer out)"
    by blast
  then show "r \<noteq> []"
  proof
    assume "\<exists>e. r = failed_record question golden_answer e"
    then show ?thesis by (auto simp: failed_record_def)
  next
    assume "\<exists>out. r = success_record question golden_answer out"
    then obtain out where "r = success_record question golden_answer out" by blast
    then have "''question'' \<in> fst ` set r"
      by (simp add: success_record_def keys_dict_unpack)
    then show ?thesis by auto
  qed
qed

lemma outcomes_in_completion_order:
  assumes "map f data = map Inr outs" and "set completion \<subseteq> {..<length data}"
  shows "map (\<lambda>i. map f data ! i) completion = map Inr (map ((!) outs) completion)"
proof -
  have "length outs = length data"
    using assms(1) by (metis length_map)
  then show ?thesis
    using assms by (auto simp: subset_iff)
qed

lemma mset_in_completion_order:
  assumes "mset completion = mset [0..<length outs]"
  shows "mset (map ((!) outs) completion) = mset outs"
proof -
  have "mset (map ((!) outs) completion) = image_mset ((!) outs) (mset completion)"
    by simp
  also have "\<dots> = mset (map ((!) outs) [0..<length outs])"
    by (simp only: assms mset_map)
  also have "\<dots> = mset outs"
    by (simp only: map_nth)
  finally show ?thesis .
qed

lemma read_lines_back:
  assumes "\<not> is_json_output outfile"
    and "list_all
           (\<lambda>r. json_dumps lib (JObj r) \<noteq> [] \<and>
                 CHR 0x0A \<notin> set (json_dumps lib (JObj r)) \<and>
                 valid_utf8 (json_dumps lib (JObj r)) \<and>
                 json_load lib (json_dumps lib (JObj r)) = Some (JObj r))
           recs"
    and "list_all (\<lambda>c. c = CHR 0x0A) blank"
    and "fs outfile =
           Some (blank @ concat (map (\<lambda>r. json_dumps lib (JObj r) @ [CHR 0x0A]) recs))"
  shows "load_out_data lib fs outfile = JArr (map JObj recs)"
proof -
  let ?text = "concat (map (\<lambda>r. json_dumps lib (JObj r) @ [CHR 0x0A]) recs)"
  have no_break: "list_all (\<lambda>r. CHR 0x0A \<notin> set (json_dumps lib (JObj r))) recs"
    using assms(2) by (simp add: list_all_iff)
  have parsed: "list_all (\<lambda>r. json_load lib (json_dumps lib (JObj r)) = Some (JObj r)) recs"
    using assms(2) by (simp add: list_all_iff)
  have "list_all (\<lambda>r. valid_utf8 (json_dumps lib (JObj r))) recs"
    using assms(2) by (simp add: list_all_iff)
  then have "valid_utf8 ?text"
    by (rule valid_utf8_lines)
  moreover have "valid_utf8 (blank @ ?text) = valid_utf8 ?text"
    using assms(3) by (intro valid_utf8_append valid_utf8_newlines)
  ultimately have decoded: "valid_utf8 (blank @ ?text)"
    by simp
  have kept: "filter (\<lambda>l. l \<noteq> []) (map (\<lambda>r. json_dumps lib (JObj r)) recs) =
      map (\<lambda>r. json_dumps lib (JObj r)) recs"
    using assms(2) by (simp add: list_all_iff filter_id_conv)
  have "filter (\<lambda>l. l \<noteq> []) (lines_from [] (blank @ ?text)) =
      filter (\<lambda>l. l \<noteq> []) (lines_from [] ?text)"
    using assms(3) by (rule skip_newlines)
  then have "filter (\<lambda>l. l \<noteq> []) (lines_from [] (blank @ ?text)) =
      map (\<lambda>r. json_dumps lib (JObj r)) recs"
    by (simp only: lines_from_records [OF no_break] kept)
  then have "read_jsonl lib fs outfile = Inr (map JObj recs)"
    using decoded
    by (simp add: read_jsonl_def open_read_def assms(4) parse_lines_records [OF parsed])
  then show ?thesis
    using assms(1) by (simp add: load_out_data_def try_load_def)
qed

lemma plain_question_kept:
  assumes "process_item env item = Inr r"
    and "map_of item ''question'' = Some (JStr q)"
    and "\<not> truthy (dict_get item ''file_name'')"
    and "\<forall>question out. search_agent env question = Inr (JObj out) \<longrightarrow>
           ''question'' \<notin> fst ` set out"
  shows "dict_get r ''question'' = dict_get item ''question''"
proof -
  from process_item_record [OF assms(1)] assms(2) obtain golden_answer question where
    described: "describe_attachment env item (JStr q) = Inr question" and
    made: "(\<exists>e. search_agent env question = Inl e \<and> is_Exception e \<and> sliceable question \<and>
          r = failed_record question golden_answer e) \<or>
     (\<exists>out. search_agent env question = Inr (JObj out) \<and>
          r = success_record question golden_answer out)"
    by (auto simp: getitem_def)
  have "dict_get r ''question'' = question"
    using made assms(4)
    by (auto simp: failed_record_def success_record_def dict_get_unpack) (simp_all add: dict_get_def)
  moreover have "question = JStr q"
    using describe_attachment_text [OF described] assms(3) by blast
  ultimately show ?thesis
    using assms(2) by (simp add: dict_get_def)
qed

lemma plain_questions_in_completion_order:
  assumes "map (process_item env) data = map Inr outs"
    and "mset completion = mset [0..<length data]"
    and "list_all
           (\<lambda>item. (\<exists>q. map_of item ''question'' = Some (JStr q)) \<and>
                    \<not> truthy (dict_get item ''file_name''))
           data"
    and "\<forall>question out. search_agent env question = Inr (JObj out) \<longrightarrow>
           ''question'' \<notin> fst ` set out"
  shows "map (\<lambda>r. dict_get r ''question'') (map ((!) outs) completion) =
           map (\<lambda>i. dict_get (data ! i) ''question'') completion \<and>
         mset (map (\<lambda>r. dict_get r ''question'') (map ((!) outs) completion)) =
           mset (map (\<lambda>item. dict_get item ''question'') data)"
proof -
  have len: "length outs = length data"
    using assms(1) by (metis length_map)
  have "set completion = set [0..<length data]"
    using assms(2) by (rule mset_eq_setD)
  then have idx: "\<forall>i\<in>set completion. i < length data"
    by auto
  have same: "dict_get (outs ! i) ''question'' = dict_get (data ! i) ''question''"
    if "i \<in> set completion" for i
  proof -
    from that idx have i: "i < length data" by blast
    then have "map (process_item env) data ! i = map Inr outs ! i"
      by (simp only: assms(1))
    with i len have task: "process_item env (data ! i) = Inr (outs ! i)"
      by simp
    from i have "data ! i \<in> set data" by simp
    with assms(3) obtain q where "map_of (data ! i) ''question'' = Some (JStr q)"
      and "\<not> truthy (dict_get (data ! i) ''file_name'')"
      by (auto simp: list_all_iff)
    with task assms(4) show ?thesis
      by (intro plain_question_kept)
  qed
  then have in_order: "map (\<lambda>r. dict_get r ''question'') (map ((!) outs) completion) =
      map (\<lambda>i. dict_get (data ! i) ''question'') completion"
    by simp
  have by_index: "map (\<lambda>i. dict_get (data ! i) ''question'') completion =
      map ((!) (map (\<lambda>item. dict_get item ''question'') data)) completion"
    using idx by simp
  have permuted: "mset (map ((!) (map (\<lambda>item. dict_get item ''question'') data)) completion) =
      mset (map (\<lambda>item. dict_get item ''question'') data)"
    using assms(2) by (intro mset_in_completion_order) simp
  from in_order by_index have
    "map (\<lambda>r. dict_get r ''question'') (map ((!) outs) completion) =
      map ((!) (map (\<lambda>item. dict_get item ''question'') data)) completion"
    by (rule trans)
  then have "mset (map (\<lambda>r. dict_get r ''question'') (map ((!) outs) completion)) =
      mset (map (\<lambda>item. dict_get item ''question'') data)"
    using permuted by (simp only:)
  with in_order show ?thesis
    by (rule conjI)
qed

text \<open>
  Two items with the same question are both run and both stored: the store holds two
  records with one question.
\<close>

theorem duplicate_questions_stored_twice:
  "empty_store json_excerpt Map.empty ''out.json'' \<and>
   main json_excerpt (returning (JObj [(''result'', JStr ''ok'')])) ''out.json'' 2 [0, 1]
     Map.empty [item_Q1, item_Q1] =
     (None, [''out.json'' \<mapsto> doc_Q1_Q1], [rec_Q1, rec_Q1]) \<and>
   load_out_data json_excerpt [''out.json'' \<mapsto> doc_Q1_Q1] ''out.json'' =
     JArr [JObj rec_Q1, JObj rec_Q1] \<and>
   dict_get rec_Q1 ''question'' = JStr ''Q1''"
proof -
  let ?env = "returning (JObj [(''result'', JStr ''ok'')])"
  let ?fs1 = "[''out.json'' \<mapsto> doc_Q1]"
  let ?fs2 = "[''out.json'' \<mapsto> doc_Q1_Q1]"
  have mode: "is_json_output ''out.json''"
    by (simp add: path_simps)
  have none: "existing_data json_excerpt Map.empty ''out.json'' = Inr (JArr [])"
    by (simp add: existing_data_cases)
  have blank: "empty_store json_excerpt Map.empty ''out.json''"
    using mode none by (simp add: empty_store_def)
  have todo: "remaining json_excerpt Map.empty ''out.json'' [item_Q1, item_Q1] =
      Inr [item_Q1, item_Q1]"
    using blank by (rule remaining_cold) (simp_all add: item_Q1_def dict_get_def)
  have task: "process_item ?env item_Q1 = Inr rec_Q1"
    by (simp add: task_simps)
  have filled: "rec_Q1 \<noteq> []"
    by (simp add: rec_Q1_def)
  have dump1: "json_dump json_excerpt (JArr [JObj rec_Q1]) = doc_Q1"
    by (simp add: json_excerpt_def excerpt_lib_def)
  have dump2: "json_dump json_excerpt (JArr [JObj rec_Q1, JObj rec_Q1]) = doc_Q1_Q1"
    by (simp add: json_excerpt_def excerpt_lib_def rec_Q1_def rec_Q2_def)
  have one: "existing_data json_excerpt ?fs1 ''out.json'' = Inr (JArr [JObj rec_Q1])"
    by (simp add: existing_data_cases excerpt_texts) (simp add: excerpt_simps)
  have two: "load_out_data json_excerpt ?fs2 ''out.json'' = JArr [JObj rec_Q1, JObj rec_Q1]"
    by (simp add: load_simps path_simps excerpt_texts) (simp add: excerpt_simps)
  have first: "safe_write json_excerpt ''out.json'' Map.empty rec_Q1 = Inr ?fs1"
    using safe_write_array_files [OF mode none, of rec_Q1] by (simp add: dump1)
  have second: "safe_write json_excerpt ''out.json'' ?fs1 rec_Q1 = Inr ?fs2"
    using safe_write_array_files [OF mode one, of rec_Q1] by (simp add: dump2 fun_eq_iff)
  have "main json_excerpt ?env ''out.json'' 2 [0, 1] Map.empty [item_Q1, item_Q1] =
      (None, ?fs2, [rec_Q1, rec_Q1])"
    by (simp add: main_def todo task filled first second)
  moreover have "dict_get rec_Q1 ''question'' = JStr ''Q1''"
    by (simp add: rec_Q1_def dict_get_def)
  ultimately show ?thesis
    using two blank by blast
qed

text \<open>
  Claim C3, as the code has it. A run over \<open>N\<close> items with hashable questions and with
  a positive concurrency \<open>K\<close> (every \<open>K > 1\<close> among them), against an empty output
  store, in which every task returns a record, in any order of completion, the library
  reading back the texts it writes for these records: the run ends without an
  exception, its results are the records of the tasks in the order of completion, \<open>N\<close>
  of them, the same records as the tasks' taken as a multiset, and the store read
  afterwards holds exactly these \<open>N\<close> records. The order of completion is any
  permutation of the tasks, whatever the concurrency. When moreover every question is a
  text, no item has a truthy \<^verbatim>\<open>file_name\<close> and the agent returns no question field,
  the questions of the records are the questions of the items in the order of
  completion: they match the input, and they are distinct when the questions of the
  input are. Nothing makes them distinct when two items have the same question.
\<close>

theorem full_run_store:
  assumes "empty_store lib fs outfile"
    and "0 < concurrency"
    and "list_all (\<lambda>item. hashable (dict_get item ''question'')) data"
    and "map (process_item env) data = map Inr outs"
    and "mset completion = mset [0..<length data]"
    and "reads_back lib outfile (map ((!) outs) completion)"
  shows "fst (main lib env outfile concurrency completion fs data) = None \<and>
         snd (snd (main lib env outfile concurrency completion fs data)) =
           map ((!) outs) completion \<and>
         length (snd (snd (main lib env outfile concurrency completion fs data))) =
           length data \<and>
         mset (snd (snd (main lib env outfile concurrency completion fs data))) = mset outs \<and>
         load_out_data lib
           (fst (snd (main lib env outfile concurrency completion fs data))) outfile =
           JArr (map JObj (map ((!) outs) completion)) \<and>
         (list_all
            (\<lambda>item. (\<exists>q. map_of item ''question'' = Some (JStr q)) \<and>
                     \<not> truthy (dict_get item ''file_name''))
            data \<and>
          (\<forall>question out. search_agent env question = Inr (JObj out) \<longrightarrow>
             ''question'' \<notin> fst ` set out) \<longrightarrow>
          map (\<lambda>r. dict_get r ''question'')
            (snd (snd (main lib env outfile concurrency completion fs data))) =
            map (\<lambda>i. dict_get (data ! i) ''question'') completion \<and>
          mset (map (\<lambda>r. dict_get r ''question'')
                  (snd (snd (main lib env outfile concurrency completion fs data)))) =
            mset (map (\<lambda>item. dict_get item ''question'') data) \<and>
          (distinct (map (\<lambda>item. dict_get item ''question'') data) \<longrightarrow>
           distinct (map (\<lambda>r. dict_get r ''question'')
                       (snd (snd (main lib env outfile concurrency completion fs data))))))"
proof -
  let ?recs = "map ((!) outs) completion"
  have len: "length outs = length data"
    using assms(4) by (metis length_map)
  have "set completion = set [0..<length data]"
    using assms(5) by (rule mset_eq_setD)
  then have idx: "set completion \<subseteq> {..<length data}"
    by auto
  have outcomes: "map (\<lambda>i. map (process_item env) data ! i) completion = map Inr ?recs"
    by (rule outcomes_in_completion_order [OF assms(4) idx])
  have todo: "remaining lib fs outfile data = Inr data"
    using assms(1) assms(3) by (rule remaining_cold)
  have pool: "\<not> concurrency \<le> 0"
    using assms(2) by simp
  have run: "main lib env outfile concurrency completion fs data =
      collect lib outfile (map Inr ?recs) (fs, [])"
    by (simp only: main_def todo sum.case pool if_False outcomes)
  have nonempty: "list_all (\<lambda>r. r \<noteq> []) ?recs"
  proof -
    have "outs ! i \<noteq> []" if "i \<in> set completion" for i
    proof -
      from that idx have i: "i < length data" by auto
      then have "map (process_item env) data ! i = map Inr outs ! i"
        by (simp only: assms(4))
      with i len have "process_item env (data ! i) = Inr (outs ! i)"
        by simp
      then show ?thesis by (rule process_item_nonempty)
    qed
    then show ?thesis by (simp add: list_all_iff)
  qed
  have "length completion = length [0..<length data]"
    using assms(5) by (rule mset_eq_length)
  then have count: "length ?recs = length data"
    by simp
  have bag: "mset ?recs = mset outs"
    using assms(5) len by (intro mset_in_completion_order) simp
  have stored: "fst (collect lib outfile (map Inr ?recs) (fs, [])) = None \<and>
      snd (snd (collect lib outfile (map Inr ?recs) (fs, []))) = ?recs \<and>
      load_out_data lib (fst (snd (collect lib outfile (map Inr ?recs) (fs, [])))) outfile =
        JArr (map JObj ?recs)"
  proof (cases "is_json_output outfile")
    case True
    have start: "existing_data lib fs outfile = Inr (JArr (map JObj []))"
      using assms(1) True by (simp add: empty_store_def)
    have every: "\<forall>n\<in>set [1..<Suc (length ?recs)].
        valid_utf8 (json_dump lib (JArr (map JObj (take n ?recs)))) \<and>
        json_load lib (json_dump lib (JArr (map JObj (take n ?recs)))) =
          Some (JArr (map JObj (take n ?recs)))"
      using assms(6) True by (simp only: reads_back_def if_True list_all_iff)
    have reads: "\<forall>n. 0 < n \<and> n \<le> length ?recs \<longrightarrow>
        valid_utf8 (json_dump lib (JArr (map JObj ([] @ take n ?recs)))) \<and>
        json_load lib (json_dump lib (JArr (map JObj ([] @ take n ?recs)))) =
          Some (JArr (map JObj ([] @ take n ?recs)))"
    proof (intro allI impI)
      fix n
      assume "0 < n \<and> n \<le> length ?recs"
      then have "n \<in> set [1..<Suc (length ?recs)]"
        by auto
      with every show "valid_utf8 (json_dump lib (JArr (map JObj ([] @ take n ?recs)))) \<and>
        json_load lib (json_dump lib (JArr (map JObj ([] @ take n ?recs)))) =
          Some (JArr (map JObj ([] @ take n ?recs)))"
        by (simp only: append_Nil)
    qed
    note written = collect_array [OF True nonempty start reads, of "[]"]
    have "load_out_data lib (fst (snd (collect lib outfile (map Inr ?recs) (fs, [])))) outfile =
        JArr (map JObj ([] @ ?recs))"
      using True written [THEN conjunct2, THEN conjunct2] by (rule load_is_existing)
    with written show ?thesis
      by simp
  next
    case False
    have blank: "list_all (\<lambda>c. c = CHR 0x0A) (content fs outfile)"
      using assms(1) False by (simp add: empty_store_def)
    show ?thesis
    proof (cases "?recs = []")
      case True
      have "load_out_data lib fs outfile = JArr []"
        using assms(1) by (rule empty_store_loads)
      then show ?thesis
        by (simp add: True)
    next
      case more: False
      let ?text = "concat (map (\<lambda>r. json_dumps lib (JObj r) @ [CHR 0x0A]) ?recs)"
      have written: "collect lib outfile (map Inr ?recs) (fs, []) =
          (None, fs(outfile \<mapsto> content fs outfile @ ?text), [] @ ?recs)"
        by (rule collect_lines [OF False nonempty more])
      have stored_text: "(fs(outfile \<mapsto> content fs outfile @ ?text)) outfile =
          Some (content fs outfile @ ?text)"
        by simp
      have line_ok: "list_all
           (\<lambda>r. json_dumps lib (JObj r) \<noteq> [] \<and>
                 CHR 0x0A \<notin> set (json_dumps lib (JObj r)) \<and>
                 valid_utf8 (json_dumps lib (JObj r)) \<and>
                 json_load lib (json_dumps lib (JObj r)) = Some (JObj r))
           ?recs"
        using assms(6) False by (simp add: reads_back_def)
      have "load_out_data lib (fs(outfile \<mapsto> content fs outfile @ ?text)) outfile =
          JArr (map JObj ?recs)"
        using False line_ok blank stored_text by (rule read_lines_back)
      then show ?thesis
        by (simp only: written fst_conv snd_conv append_Nil)
    qed
  qed
  have results: "snd (snd (main lib env outfile concurrency completion fs data)) = ?recs"
    using stored by (simp only: run)
  have plain: "list_all
            (\<lambda>item. (\<exists>q. map_of item ''question'' = Some (JStr q)) \<and>
                     \<not> truthy (dict_get item ''file_name''))
            data \<and>
          (\<forall>question out. search_agent env question = Inr (JObj out) \<longrightarrow>
             ''question'' \<notin> fst ` set out) \<longrightarrow>
          map (\<lambda>r. dict_get r ''question'') ?recs =
            map (\<lambda>i. dict_get (data ! i) ''question'') completion \<and>
          mset (map (\<lambda>r. dict_get r ''question'') ?recs) =
            mset (map (\<lambda>item. dict_get item ''question'') data) \<and>
          (distinct (map (\<lambda>item. dict_get item ''question'') data) \<longrightarrow>
           distinct (map (\<lambda>r. dict_get r ''question'') ?recs))"
  proof (intro impI)
    assume plain_items: "list_all
            (\<lambda>item. (\<exists>q. map_of item ''question'' = Some (JStr q)) \<and>
                     \<not> truthy (dict_get item ''file_name''))
            data \<and>
          (\<forall>question out. search_agent env question = Inr (JObj out) \<longrightarrow>
             ''question'' \<notin> fst ` set out)"
    note kept = plain_questions_in_completion_order [OF assms(4) assms(5)
        plain_items [THEN conjunct1] plain_items [THEN conjunct2]]
    have "distinct (map (\<lambda>item. dict_get item ''question'') data) \<longrightarrow>
        distinct (map (\<lambda>r. dict_get r ''question'') ?recs)"
      using mset_eq_imp_distinct_iff [OF kept [THEN conjunct2]] by blast
    with kept show "map (\<lambda>r. dict_get r ''question'') ?recs =
            map (\<lambda>i. dict_get (data ! i) ''question'') completion \<and>
          mset (map (\<lambda>r. dict_get r ''question'') ?recs) =
            mset (map (\<lambda>item. dict_get item ''question'') data) \<and>
          (distinct (map (\<lambda>item. dict_get item ''question'') data) \<longrightarrow>
           distinct (map (\<lambda>r. dict_get r ''question'') ?recs))"
      by blast
  qed
  from stored count bag plain show ?thesis
    by (simp only: run)
qed

theorem full_run_store_witness:
  "empty_store json_excerpt [''out.jsonl'' \<mapsto> [CHR 0x0A]] ''out.jsonl'' \<and>
   empty_store json_excerpt Map.empty ''out.json'' \<and>
   fst (main json_excerpt (returning (JObj [(''result'', JStr ''ok'')])) ''out.jsonl'' 2 [1, 0]
          [''out.jsonl'' \<mapsto> [CHR 0x0A]] [item_Q1, item_Q2]) = None \<and>
   snd (snd (main json_excerpt (returning (JObj [(''result'', JStr ''ok'')])) ''out.jsonl'' 2
               [1, 0] [''out.jsonl'' \<mapsto> [CHR 0x0A]] [item_Q1, item_Q2])) = [rec_Q2, rec_Q1] \<and>
   load_out_data json_excerpt
     (fst (snd (main json_excerpt (returning (JObj [(''result'', JStr ''ok'')])) ''out.jsonl'' 2
                  [1, 0] [''out.jsonl'' \<mapsto> [CHR 0x0A]] [item_Q1, item_Q2])))
     ''out.jsonl'' = JArr [JObj rec_Q2, JObj rec_Q1] \<and>
   snd (snd (main json_excerpt (returning (JObj [(''result'', JStr ''ok'')])) ''out.json'' 2
               [0, 1] Map.empty [item_Q1, item_Q2])) = [rec_Q1, rec_Q2] \<and>
   load_out_data json_excerpt
     (fst (snd (main json_excerpt (returning (JObj [(''result'', JStr ''ok'')])) ''out.json'' 2
                  [0, 1] Map.empty [item_Q1, item_Q2])))
     ''out.json'' = JArr [JObj rec_Q1, JObj rec_Q2]"
proof -
  let ?env = "returning (JObj [(''result'', JStr ''ok'')])"
  have line_mode: "\<not> is_json_output ''out.jsonl''"
    by (simp add: path_simps)
  have doc_mode: "is_json_output ''out.json''"
    by (simp add: path_simps)
  have blank_lines: "empty_store json_excerpt [''out.jsonl'' \<mapsto> [CHR 0x0A]] ''out.jsonl''"
    using line_mode by (simp add: empty_store_def content_def)
  have blank_doc: "empty_store json_excerpt Map.empty ''out.json''"
    using doc_mode by (simp add: empty_store_def existing_data_cases)
  have pool: "0 < (2::int)"
    by simp
  have hashed: "list_all (\<lambda>item. hashable (dict_get item ''question'')) [item_Q1, item_Q2]"
    by (simp add: item_Q1_def item_Q2_def dict_get_def)
  have tasks: "map (process_item ?env) [item_Q1, item_Q2] = map Inr [rec_Q1, rec_Q2]"
    by (simp add: task_simps)
  have swapped: "mset [1, 0] = mset [0..<length [item_Q1, item_Q2]]"
    by (simp add: upt_rec)
  have straight: "mset [0, 1] = mset [0..<length [item_Q1, item_Q2]]"
    by (simp add: upt_rec)
  have dumps1: "json_dumps json_excerpt (JObj rec_Q1) = line_Q1"
    by (simp add: json_excerpt_def excerpt_lib_def)
  have dumps2: "json_dumps json_excerpt (JObj rec_Q2) = line_Q2"
    by (simp add: json_excerpt_def excerpt_lib_def rec_Q1_def rec_Q2_def)
  have loads1: "json_load json_excerpt line_Q1 = Some (JObj rec_Q1)"
    by (simp add: excerpt_simps)
  have loads2: "json_load json_excerpt line_Q2 = Some (JObj rec_Q2)"
    by (simp add: excerpt_simps)
  have plain: "line_Q1 \<noteq> [] \<and> CHR 0x0A \<notin> set line_Q1 \<and> line_Q2 \<noteq> [] \<and> CHR 0x0A \<notin> set line_Q2"
    by (simp add: line_Q1_def line_Q2_def)
  have lines_back: "reads_back json_excerpt ''out.jsonl'' (map ((!) [rec_Q1, rec_Q2]) [1, 0])"
    using line_mode plain
    by (simp add: reads_back_def dumps1 dumps2 loads1 loads2 excerpt_texts)
  have dump1: "json_dump json_excerpt (JArr [JObj rec_Q1]) = doc_Q1"
    by (simp add: json_excerpt_def excerpt_lib_def)
  have dump2: "json_dump json_excerpt (JArr [JObj rec_Q1, JObj rec_Q2]) = doc_Q1_Q2"
    by (simp add: json_excerpt_def excerpt_lib_def rec_Q1_def rec_Q2_def)
  have load1: "json_load json_excerpt doc_Q1 = Some (JArr [JObj rec_Q1])"
    by (simp add: excerpt_simps)
  have load2: "json_load json_excerpt doc_Q1_Q2 = Some (JArr [JObj rec_Q1, JObj rec_Q2])"
    by (simp add: excerpt_simps)
  have docs_back: "reads_back json_excerpt ''out.json'' (map ((!) [rec_Q1, rec_Q2]) [0, 1])"
    using doc_mode
    by (simp add: reads_back_def upt_rec dump1 dump2 load1 load2 excerpt_texts)
  show ?thesis
    using full_run_store [OF blank_lines pool hashed tasks swapped lines_back]
      full_run_store [OF blank_doc pool hashed tasks straight docs_back]
      blank_lines blank_doc
    by simp
qed

end
